theory Spec2Isabelle
  imports Complex_Main
begin

section \<open>Numbers\<close>

text \<open>
  The engine computes on pandas/NumPy \<open>float64\<close> values.  A finite value is the real
  number it denotes; the IEEE special values are constructors of their own, so that "not
  a number" and the infinities produced by a division by zero are results of the model,
  never errors.  The sign of zero is not modelled (every zero behaves as \<open>+0.0\<close>).

  There are two layers of arithmetic.  The operations \<open>fadd\<close>, \<open>fsub\<close>, \<open>fmul\<close>, \<open>fdiv\<close>
  leave a finite result unrounded; the drawdown, the Sortino ratio and the moving
  averages are stated on them.  The operations \<open>radd\<close>, \<open>rsub\<close>, \<open>rmul\<close>, \<open>rdiv\<close> round
  each result to the nearest \<open>float64\<close>, ties to even, as the machine does; the portfolio
  valuation and the alert checks, whose outcome turns on a comparison with a threshold
  or on an equality of values, are computed with them.
\<close>

datatype float64 = Fin real | PInf | NInf | NaN

fun fneg :: "float64 \<Rightarrow> float64" where
  "fneg (Fin x) = Fin (- x)"
| "fneg PInf = NInf"
| "fneg NInf = PInf"
| "fneg NaN = NaN"

fun fadd :: "float64 \<Rightarrow> float64 \<Rightarrow> float64" where
  "fadd NaN b = NaN"
| "fadd a NaN = NaN"
| "fadd (Fin x) (Fin y) = Fin (x + y)"
| "fadd PInf NInf = NaN"
| "fadd NInf PInf = NaN"
| "fadd PInf b = PInf"
| "fadd a PInf = PInf"
| "fadd NInf b = NInf"
| "fadd a NInf = NInf"

definition fsub :: "float64 \<Rightarrow> float64 \<Rightarrow> float64" where
  "fsub a b = fadd a (fneg b)"

fun fmul :: "float64 \<Rightarrow> float64 \<Rightarrow> float64" where
  "fmul NaN b = NaN"
| "fmul a NaN = NaN"
| "fmul (Fin x) (Fin y) = Fin (x * y)"
| "fmul (Fin x) PInf = (if x = 0 then NaN else if 0 < x then PInf else NInf)"
| "fmul (Fin x) NInf = (if x = 0 then NaN else if 0 < x then NInf else PInf)"
| "fmul PInf (Fin y) = (if y = 0 then NaN else if 0 < y then PInf else NInf)"
| "fmul NInf (Fin y) = (if y = 0 then NaN else if 0 < y then NInf else PInf)"
| "fmul PInf PInf = PInf"
| "fmul PInf NInf = NInf"
| "fmul NInf PInf = NInf"
| "fmul NInf NInf = PInf"

fun fdiv :: "float64 \<Rightarrow> float64 \<Rightarrow> float64" where
  "fdiv NaN b = NaN"
| "fdiv a NaN = NaN"
| "fdiv (Fin x) (Fin y) =
     (if y = 0 then (if x = 0 then NaN else if 0 < x then PInf else NInf)
      else Fin (x / y))"
| "fdiv (Fin x) PInf = Fin 0"
| "fdiv (Fin x) NInf = Fin 0"
| "fdiv PInf (Fin y) = (if 0 \<le> y then PInf else NInf)"
| "fdiv NInf (Fin y) = (if 0 \<le> y then NInf else PInf)"
| "fdiv a b = NaN"

fun fabs :: "float64 \<Rightarrow> float64" where
  "fabs (Fin x) = Fin \<bar>x\<bar>"
| "fabs PInf = PInf"
| "fabs NInf = PInf"
| "fabs NaN = NaN"

fun fsqrt :: "float64 \<Rightarrow> float64" where
  "fsqrt (Fin x) = (if x < 0 then NaN else Fin (sqrt x))"
| "fsqrt PInf = PInf"
| "fsqrt NInf = NaN"
| "fsqrt NaN = NaN"

text \<open>Comparisons: every comparison with NaN is false.\<close>

fun fle :: "float64 \<Rightarrow> float64 \<Rightarrow> bool" where
  "fle NaN b = False"
| "fle a NaN = False"
| "fle NInf b = True"
| "fle a PInf = True"
| "fle (Fin x) (Fin y) = (x \<le> y)"
| "fle a b = False"

fun flt :: "float64 \<Rightarrow> float64 \<Rightarrow> bool" where
  "flt NaN b = False"
| "flt a NaN = False"
| "flt (Fin x) (Fin y) = (x < y)"
| "flt NInf NInf = False"
| "flt PInf b = False"
| "flt NInf b = True"
| "flt a PInf = True"
| "flt a b = False"

definition feq :: "float64 \<Rightarrow> float64 \<Rightarrow> bool" where
  "feq a b = (a \<noteq> NaN \<and> a = b)"


subsection \<open>Rounding to float64\<close>

definition pow2 :: "int \<Rightarrow> real" where
  "pow2 e = (if 0 \<le> e then 2 ^ nat e else 1 / 2 ^ nat (- e))"

definition expo :: "real \<Rightarrow> int" where
  \<comment> \<open>the binary exponent of a number, not below that of the subnormal numbers\<close>
  "expo x = max \<lfloor>log 2 \<bar>x\<bar>\<rfloor> (- 1022)"

definition ulp :: "real \<Rightarrow> real" where
  \<comment> \<open>the spacing of the float64 numbers around \<open>x\<close>: 53 significant bits\<close>
  "ulp x = pow2 (expo x - 52)"

definition rne :: "real \<Rightarrow> int" where
  \<comment> \<open>the nearest integer, the even one of two equally near\<close>
  "rne y =
     (let f = \<lfloor>y\<rfloor>; d = y - real_of_int f
      in if d < 1 / 2 then f else if 1 / 2 < d then f + 1 else if even f then f else f + 1)"

definition max64 :: real where
  \<comment> \<open>the largest finite float64 number\<close>
  "max64 = (2 ^ 53 - 1) * 2 ^ 971"

definition round64 :: "real \<Rightarrow> float64" where
  "round64 x =
     (if x = 0 then Fin 0
      else let y = real_of_int (rne (x / ulp x)) * ulp x
           in if max64 < \<bar>y\<bar> then (if 0 < x then PInf else NInf) else Fin y)"

definition float64_number :: "real \<Rightarrow> bool" where
  \<comment> \<open>the real is a float64 number: a multiple of its spacing, within the range\<close>
  "float64_number y = ((\<exists>m :: int. y = real_of_int m * ulp y) \<and> \<bar>y\<bar> \<le> max64)"

fun rnd :: "float64 \<Rightarrow> float64" where
  "rnd (Fin x) = round64 x"
| "rnd PInf = PInf"
| "rnd NInf = NInf"
| "rnd NaN = NaN"

definition radd :: "float64 \<Rightarrow> float64 \<Rightarrow> float64" where
  "radd a b = rnd (fadd a b)"

definition rsub :: "float64 \<Rightarrow> float64 \<Rightarrow> float64" where
  "rsub a b = rnd (fsub a b)"

definition rmul :: "float64 \<Rightarrow> float64 \<Rightarrow> float64" where
  "rmul a b = rnd (fmul a b)"

definition rdiv :: "float64 \<Rightarrow> float64 \<Rightarrow> float64" where
  "rdiv a b = rnd (fdiv a b)"

section \<open>pandas objects\<close>

text \<open>
  A \<open>Series\<close> is the list of its values in index order; the functions below never look
  at the labels of a Series.  A \<open>DataFrame\<close> has its row index (trading dates as day
  numbers, increasing) and its columns in order, each a label with the values of the
  column; every column has one value for each row and no label occurs twice.  A missing
  value is NaN.
\<close>

type_synonym series = "float64 list"

record 'l dataframe =
  index :: "int list"
  columns :: "('l \<times> series) list"

definition df_empty :: "'l dataframe \<Rightarrow> bool" where
  \<comment> \<open>\<open>DataFrame.empty\<close>: some axis has length 0\<close>
  "df_empty df = (index df = [] \<or> columns df = [])"

definition empty_frame :: "'l dataframe" where
  \<comment> \<open>\<open>pd.DataFrame()\<close>\<close>
  "empty_frame = \<lparr>index = [], columns = []\<rparr>"

definition dropna :: "series \<Rightarrow> series" where
  "dropna xs = filter (\<lambda>x. x \<noteq> NaN) xs"

fun ffill_from :: "float64 \<Rightarrow> series \<Rightarrow> series" where
  "ffill_from prev [] = []"
| "ffill_from prev (x # xs) =
     (if x = NaN then prev # ffill_from prev xs else x # ffill_from x xs)"

definition ffill :: "series \<Rightarrow> series" where
  \<comment> \<open>\<open>fillna(method='ffill')\<close>: a missing value takes the last valid value before it\<close>
  "ffill xs = ffill_from NaN xs"

definition bfill :: "series \<Rightarrow> series" where
  \<comment> \<open>\<open>fillna(method='bfill')\<close>: the same pass run from the end of the column\<close>
  "bfill xs = rev (ffill (rev xs))"

definition pct_change :: "series \<Rightarrow> series" where
  \<comment> \<open>\<open>pct_change()\<close>: pads missing values forward, then \<open>data / data.shift(1) - 1\<close>\<close>
  "pct_change xs =
     (let data = ffill xs
      in map2 (\<lambda>cur prev. fsub (fdiv cur prev) (Fin 1)) data (NaN # data))"

definition pct_change_f64 :: "series \<Rightarrow> series" where
  \<comment> \<open>\<open>pct_change()\<close> with each operation rounded\<close>
  "pct_change_f64 xs =
     (let data = ffill xs
      in map2 (\<lambda>cur prev. rsub (rdiv cur prev) (Fin 1)) data (NaN # data))"

definition row_sum :: "series \<Rightarrow> float64" where
  \<comment> \<open>\<open>sum(axis=1)\<close> on one row: missing values skipped, the others added from the left,
      each partial sum rounded (on rows of eight values or more NumPy may group the
      additions in another order)\<close>
  "row_sum xs = foldl radd (Fin 0) (dropna xs)"

definition series_sum :: "series \<Rightarrow> float64" where
  \<comment> \<open>\<open>sum()\<close> with \<open>skipna=True\<close>\<close>
  "series_sum xs = foldl fadd (Fin 0) (dropna xs)"

definition series_mean :: "series \<Rightarrow> float64" where
  "series_mean xs =
     (let vals = dropna xs
      in if vals = [] then NaN else fdiv (series_sum vals) (Fin (real (length vals))))"

definition series_std :: "series \<Rightarrow> float64" where
  \<comment> \<open>\<open>std()\<close>: sample standard deviation (\<open>ddof=1\<close>), NaN on fewer than two values;
      a squared deviation that is not a number makes the result so\<close>
  "series_std xs =
     (let vals = dropna xs; n = length vals
      in if n \<le> 1 then NaN
         else let avg = fdiv (series_sum vals) (Fin (real n));
                  sqr = map (\<lambda>x. fmul (fsub avg x) (fsub avg x)) vals
              in fsqrt (fdiv (foldl fadd (Fin 0) sqr) (Fin (real (n - 1)))))"

definition fmin :: "float64 \<Rightarrow> float64 \<Rightarrow> float64" where
  "fmin a b = (if flt b a then b else a)"

definition fmax :: "float64 \<Rightarrow> float64 \<Rightarrow> float64" where
  "fmax a b = (if flt a b then b else a)"

definition series_min :: "series \<Rightarrow> float64" where
  \<comment> \<open>\<open>min()\<close> with \<open>skipna=True\<close>: NaN when no valid value is left\<close>
  "series_min xs = (case dropna xs of [] \<Rightarrow> NaN | v # vs \<Rightarrow> foldl fmin v vs)"

definition series_max :: "series \<Rightarrow> float64" where
  "series_max xs = (case dropna xs of [] \<Rightarrow> NaN | v # vs \<Rightarrow> foldl fmax v vs)"

fun cummax_from :: "float64 \<Rightarrow> series \<Rightarrow> series" where
  "cummax_from m [] = []"
| "cummax_from m (x # xs) =
     (if x = NaN then NaN # cummax_from m xs
      else let m' = (if m = NaN \<or> flt m x then x else m) in m' # cummax_from m' xs)"

definition cummax :: "series \<Rightarrow> series" where
  \<comment> \<open>\<open>cummax()\<close>: running maximum; a missing value stays missing and is skipped\<close>
  "cummax xs = cummax_from NaN xs"

section \<open>Errors\<close>

datatype error = ZeroDivisionError | KeyError | IndexError | ValueError

section \<open>utils/portfolio.py\<close>

definition py_sum :: "float64 list \<Rightarrow> float64" where
  \<comment> \<open>Python's \<open>sum\<close> of floats: starts at 0 and adds from the left, each partial sum
      rounded (the correction term that CPython 3.12 and later carry along is left out)\<close>
  "py_sum xs = foldl radd (Fin 0) xs"

definition normalize_weights ::
  "(string \<times> float64) list \<Rightarrow> error + (string \<times> float64) list" where
  \<comment> \<open>\<open>{k: v/total_weight for k, v in weights.items()}\<close>: the first item already divides,
      and Python's \<open>/\<close> raises on a zero divisor; an empty dict divides nothing\<close>
  "normalize_weights weights =
     (let total_weight = py_sum (map snd weights)
      in if weights = [] then Inr []
         else if total_weight = Fin 0 then Inl ZeroDivisionError
         else Inr (map (\<lambda>(k, v). (k, rdiv v total_weight)) weights))"

fun weights_list ::
  "(string \<times> float64) list \<Rightarrow> string list \<Rightarrow> error + float64 list" where
  \<comment> \<open>\<open>[weights[ticker] for ticker in data.columns]\<close>\<close>
  "weights_list weights [] = Inr []"
| "weights_list weights (ticker # rest) =
     (case map_of weights ticker of
        None \<Rightarrow> Inl KeyError
      | Some w \<Rightarrow> (case weights_list weights rest of
                     Inl e \<Rightarrow> Inl e
                   | Inr ws \<Rightarrow> Inr (w # ws)))"

definition row :: "string dataframe \<Rightarrow> nat \<Rightarrow> series" where
  "row df i = map (\<lambda>(l, c). c ! i) (columns df)"

definition compute_portfolio_value ::
  "string dataframe \<Rightarrow> (string \<times> float64) list option \<Rightarrow> float64 \<Rightarrow> error + series" where
  "compute_portfolio_value data weights initial_value =
     (if df_empty data then Inr []
      else
        case (case weights of
                None \<Rightarrow> Inr (map (\<lambda>(ticker, c).
                                    (ticker, round64 (1 / real (length (columns data)))))
                               (columns data))
              | Some ws \<Rightarrow> normalize_weights ws) of
          Inl e \<Rightarrow> Inl e
        | Inr weights' \<Rightarrow>
            (case weights_list weights' (map fst (columns data)) of
               Inl e \<Rightarrow> Inl e
             | Inr wl \<Rightarrow>
                 let normalized_prices =
                       data\<lparr>columns := map (\<lambda>(l, c). (l, map (\<lambda>x. rdiv x (hd c)) c))
                                            (columns data)\<rparr>;
                     weighted_prices =
                       normalized_prices\<lparr>columns :=
                          map2 (\<lambda>(l, c) w. (l, map (\<lambda>x. rmul x w) c))
                               (columns normalized_prices) wl\<rparr>
                 in Inr (map (\<lambda>i. rmul (row_sum (row weighted_prices i)) initial_value)
                             [0..<length (index data)])))"

record metrics =
  Cumulative_Return :: float64
  Annual_Volatility :: float64
  Max_Drawdown :: float64

definition compute_portfolio_metrics :: "series \<Rightarrow> error + metrics" where
  \<comment> \<open>\<open>portfolio_value[-1]\<close> and \<open>portfolio_value[0]\<close> are positional on a date-indexed
      Series; on an empty one the first of them raises\<close>
  "compute_portfolio_metrics portfolio_value =
     (let daily_returns = dropna (pct_change portfolio_value)
      in if portfolio_value = [] then Inl IndexError
         else
           let cumulative_return =
                 fsub (fdiv (last portfolio_value) (hd portfolio_value)) (Fin 1);
               annual_volatility = fmul (series_std daily_returns) (Fin (sqrt 252));
               running_max = cummax portfolio_value;
               max_drawdown =
                 fdiv (series_min (map2 fsub portfolio_value running_max))
                      (series_max running_max)
           in Inr \<lparr>Cumulative_Return = cumulative_return,
                    Annual_Volatility = annual_volatility,
                    Max_Drawdown = max_drawdown\<rparr>)"

definition compute_sharpe_ratio :: "series \<Rightarrow> real \<Rightarrow> float64" where
  "compute_sharpe_ratio portfolio_values risk_free_rate =
     (let daily_returns = dropna (pct_change portfolio_values);
          excess_returns = map (\<lambda>r. fsub r (Fin (risk_free_rate / 252))) daily_returns
      in fmul (fdiv (series_mean excess_returns) (series_std excess_returns))
              (Fin (sqrt 252)))"

definition compute_sortino_ratio :: "series \<Rightarrow> real \<Rightarrow> float64" where
  "compute_sortino_ratio portfolio_values risk_free_rate =
     (let daily_returns = dropna (pct_change portfolio_values);
          excess_returns = map (\<lambda>r. fsub r (Fin (risk_free_rate / 252))) daily_returns;
          downside_std = series_std (filter (\<lambda>r. flt r (Fin 0)) daily_returns)
      in if feq downside_std (Fin 0) then NaN
         else fmul (fdiv (series_mean excess_returns) downside_std) (Fin (sqrt 252)))"

section \<open>utils/alerts.py\<close>

text \<open>
  An alert message is an f-string; it is represented by the values it interpolates: the
  magnitude \<open>abs(min_drop)\<close>, the threshold and, for a stock, the ticker.
\<close>

datatype alert =
  PortfolioAlert float64 float64
| StockAlert string float64 float64

definition check_portfolio_drop :: "series \<Rightarrow> float64 \<Rightarrow> alert option" where
  "check_portfolio_drop portfolio_value threshold_pct =
     (if portfolio_value = [] then None
      else
        let drop_pct = map (\<lambda>v. rmul (rsub (rdiv v (hd portfolio_value)) (Fin 1)) (Fin 100))
                           portfolio_value;
            min_drop = series_min drop_pct
        in if fle min_drop (fneg threshold_pct)
           then Some (PortfolioAlert (fabs min_drop) threshold_pct)
           else None)"

fun stock_loop ::
  "(string \<times> series) list \<Rightarrow> float64 \<Rightarrow> string list \<Rightarrow> alert list \<Rightarrow> alert list" where
  "stock_loop daily_change threshold_pct [] alerts = alerts"
| "stock_loop daily_change threshold_pct (ticker # rest) alerts =
     (case map_of daily_change ticker of
        None \<Rightarrow> stock_loop daily_change threshold_pct rest alerts
      | Some c \<Rightarrow>
          let min_change = series_min c
          in if fle min_change (fneg threshold_pct)
             then stock_loop daily_change threshold_pct rest
                    (alerts @ [StockAlert ticker (fabs min_change) threshold_pct])
             else stock_loop daily_change threshold_pct rest alerts)"

definition check_stock_drops ::
  "string dataframe \<Rightarrow> string list \<Rightarrow> float64 \<Rightarrow> alert list" where
  "check_stock_drops data tickers threshold_pct =
     (if df_empty data then []
      else
        let daily_change =
              map (\<lambda>(l, c). (l, map (\<lambda>x. rmul x (Fin 100)) (pct_change_f64 c)))
                  (columns data)
        in stock_loop daily_change threshold_pct tickers [])"


section \<open>utils/data\_loader.py\<close>

text \<open>
  \<open>yf.download\<close> is the external market-data source; its result is the argument
  \<open>raw\<close>.  The columns of a download are labelled by field and ticker (a MultiIndex) or,
  for one ticker, by field alone.
\<close>

datatype download =
  FlatFrame "string dataframe"
| MultiFrame "(string \<times> string) dataframe"

definition upper_char :: "char \<Rightarrow> char" where
  "upper_char c =
     (let n = (of_char c :: nat) in if 97 \<le> n \<and> n \<le> 122 then char_of (n - 32) else c)"

definition upper :: "string \<Rightarrow> string" where
  \<comment> \<open>\<open>str.upper()\<close> on ASCII symbols\<close>
  "upper s = map upper_char s"

definition dropna_columns :: "'l dataframe \<Rightarrow> 'l dataframe" where
  \<comment> \<open>\<open>dropna(axis=1, how='all')\<close>: a column stays when it has a valid value\<close>
  "dropna_columns df = df\<lparr>columns := filter (\<lambda>(l, c). dropna c \<noteq> []) (columns df)\<rparr>"

definition select_close :: "download \<Rightarrow> error + string dataframe" where
  \<comment> \<open>"Select Adj Close or Close": \<open>data[field]\<close> on a MultiIndex keeps the columns of
      that field under their ticker, \<open>data[[field]]\<close> keeps the column named so\<close>
  "select_close data =
     (case data of
        MultiFrame df \<Rightarrow>
          let level0 = map (\<lambda>((field, ticker), c). field) (columns df);
              field = (if ''Adj Close'' \<in> set level0 then ''Adj Close'' else ''Close'')
          in if field \<in> set level0
             then Inr \<lparr>index = index df,
                       columns = map (\<lambda>((f, ticker), c). (ticker, c))
                                     (filter (\<lambda>((f, ticker), c). f = field) (columns df))\<rparr>
             else Inl KeyError
      | FlatFrame df \<Rightarrow>
          let field = (if ''Adj Close'' \<in> set (map fst (columns df))
                       then ''Adj Close'' else ''Close'')
          in if field \<in> set (map fst (columns df))
             then Inr (df\<lparr>columns := filter (\<lambda>(l, c). l = field) (columns df)\<rparr>)
             else Inl KeyError)"

definition flatten_columns :: "string list \<Rightarrow> string dataframe \<Rightarrow> error + string dataframe" where
  \<comment> \<open>"FIXED COLUMN FLATTENING": assigning a list of labels of another length raises\<close>
  "flatten_columns tickers data =
     (if length tickers = 1
      then (if length (columns data) = 1
            then Inr (data\<lparr>columns := map (\<lambda>(l, c). (upper (tickers ! 0), c)) (columns data)\<rparr>)
            else Inl ValueError)
      else Inr (data\<lparr>columns := map (\<lambda>(l, c). (upper l, c)) (columns data)\<rparr>))"

definition in_range :: "int \<Rightarrow> int \<Rightarrow> int \<Rightarrow> bool" where
  "in_range start_date end_date d = (start_date \<le> d \<and> d \<le> end_date)"

definition loc_rows :: "int \<Rightarrow> int \<Rightarrow> int list \<Rightarrow> 'a list \<Rightarrow> 'a list" where
  "loc_rows start_date end_date idx c =
     map snd (filter (\<lambda>(d, x). in_range start_date end_date d) (zip idx c))"

definition loc_slice :: "int \<Rightarrow> int \<Rightarrow> 'l dataframe \<Rightarrow> 'l dataframe" where
  \<comment> \<open>\<open>data.loc[start_date:end_date]\<close> on an increasing date index: the rows whose date
      lies between the two bounds, both included\<close>
  "loc_slice start_date end_date df =
     \<lparr>index = filter (in_range start_date end_date) (index df),
      columns = map (\<lambda>(l, c). (l, loc_rows start_date end_date (index df) c)) (columns df)\<rparr>"

definition fill_missing :: "'l dataframe \<Rightarrow> 'l dataframe" where
  \<comment> \<open>\<open>data.fillna(method='ffill').fillna(method='bfill')\<close>\<close>
  "fill_missing df = df\<lparr>columns := map (\<lambda>(l, c). (l, bfill (ffill c))) (columns df)\<rparr>"

definition download_dropna :: "download \<Rightarrow> download" where
  \<comment> \<open>"Drop empty columns upfront"\<close>
  "download_dropna raw =
     (case raw of FlatFrame df \<Rightarrow> FlatFrame (dropna_columns df)
                | MultiFrame df \<Rightarrow> MultiFrame (dropna_columns df))"

definition download_empty :: "download \<Rightarrow> bool" where
  "download_empty raw = (case raw of FlatFrame df \<Rightarrow> df_empty df | MultiFrame df \<Rightarrow> df_empty df)"

definition fetch_stock_data ::
  "download \<Rightarrow> string list \<Rightarrow> int \<Rightarrow> int \<Rightarrow> error + string dataframe" where
  "fetch_stock_data raw tickers start_date end_date =
     (let data = download_dropna raw
      in if download_empty data then Inr empty_frame
         else
           case select_close data of
             Inl e \<Rightarrow> Inl e
           | Inr selected \<Rightarrow>
               (case flatten_columns tickers selected of
                  Inl e \<Rightarrow> Inl e
                | Inr flat \<Rightarrow>
                    let filled = dropna_columns (fill_missing flat)
                    in if df_empty filled then Inr empty_frame
                       else Inr (loc_slice start_date end_date filled)))"

section \<open>utils/visualization.py\<close>

text \<open>
  \<open>Series.ewm(span=s, adjust=False).mean()\<close>, as pandas computes it: the smoothing factor
  is \<open>1 / (1 + com)\<close> with \<open>com = (s - 1) / 2\<close>, the first value seeds the average, a
  missing value leaves the average as it is and ages its weight.
\<close>

fun ewm_loop :: "real \<Rightarrow> float64 \<Rightarrow> real \<Rightarrow> nat \<Rightarrow> series \<Rightarrow> series" where
  "ewm_loop alpha weighted old_wt nobs [] = []"
| "ewm_loop alpha weighted old_wt nobs (cur # rest) =
     (let is_observation = (cur \<noteq> NaN);
          nobs' = nobs + (if is_observation then 1 else 0);
          aged = old_wt * (1 - alpha);
          weighted' =
            (if weighted \<noteq> NaN
             then (if is_observation \<and> \<not> feq weighted cur
                   then fdiv (fadd (fmul (Fin aged) weighted) (fmul (Fin alpha) cur))
                             (Fin (aged + alpha))
                   else weighted)
             else if is_observation then cur else weighted);
          old_wt' = (if weighted \<noteq> NaN then (if is_observation then 1 else aged) else old_wt)
      in (if 1 \<le> nobs' then weighted' else NaN) # ewm_loop alpha weighted' old_wt' nobs' rest)"

definition ewm_mean :: "nat \<Rightarrow> series \<Rightarrow> series" where
  "ewm_mean span_n vals =
     (case vals of
        [] \<Rightarrow> []
      | v # rest \<Rightarrow>
          let com = (real span_n - 1) / 2;
              alpha = 1 / (1 + com);
              nobs = (if v \<noteq> NaN then 1 else 0 :: nat)
          in (if 1 \<le> nobs then v else NaN) # ewm_loop alpha v 1 nobs rest)"

record macd_chart =
  macd_line :: series
  signal_line :: series
  histogram :: series

definition plot_macd :: "string dataframe \<Rightarrow> string \<Rightarrow> macd_chart option" where
  \<comment> \<open>the three traces given to the figure; \<open>None\<close> is the "No data available" warning\<close>
  "plot_macd data ticker =
     (case map_of (columns data) ticker of
        None \<Rightarrow> None
      | Some prices \<Rightarrow>
          if list_all (\<lambda>x. x = NaN) prices then None
          else
            let ema12 = ewm_mean 12 prices;
                ema26 = ewm_mean 26 prices;
                macd = map2 fsub ema12 ema26;
                signal = ewm_mean 9 macd;
                hist = map2 fsub macd signal
            in Some \<lparr>macd_line = macd, signal_line = signal, histogram = hist\<rparr>)"

section \<open>app.py\<close>


definition cumulative_return :: "series \<Rightarrow> error + float64" where
  \<comment> \<open>\<open>(portfolio_value.iloc[-1] / portfolio_value.iloc[0] - 1) * 100\<close>\<close>
  "cumulative_return portfolio_value =
     (if portfolio_value = [] then Inl IndexError
      else Inr (rmul (rsub (rdiv (last portfolio_value) (hd portfolio_value)) (Fin 1))
                     (Fin 100)))"

section \<open>The specification's notions\<close>

text \<open>
  The quantities below are written after the words of the specification, to be
  compared with what the code computes.
\<close>

definition running_maximum :: "real list \<Rightarrow> nat \<Rightarrow> real" where
  \<comment> \<open>the running historical maximum at position \<open>i\<close>\<close>
  "running_maximum vs i = Max (set (take (Suc i) vs))"

definition spec_max_drawdown :: "real list \<Rightarrow> float64" where
  \<comment> \<open>minimum over time of (value - running maximum), divided by the maximum of the
      running maximum\<close>
  "spec_max_drawdown vs =
     fdiv (Fin (Min ((\<lambda>i. vs ! i - running_maximum vs i) ` {..<length vs})))
          (Fin (Max (running_maximum vs ` {..<length vs})))"

definition minimum_of :: "series \<Rightarrow> float64 \<Rightarrow> bool" where
  \<comment> \<open>\<open>m\<close> is the minimum of the valid values of the series\<close>
  "minimum_of xs m = (m \<in> set xs \<and> m \<noteq> NaN \<and> list_all (\<lambda>y. y = NaN \<or> fle m y) xs)"

definition percent_change :: "float64 \<Rightarrow> float64 \<Rightarrow> float64" where
  \<comment> \<open>percent change of \<open>a\<close> relative to \<open>b\<close>, as float64 evaluates \<open>(a / b - 1) * 100\<close>\<close>
  "percent_change a b = rmul (rsub (rdiv a b) (Fin 1)) (Fin 100)"

definition change_from_first :: "series \<Rightarrow> series" where
  \<comment> \<open>percent change of each point relative to the first value of the series\<close>
  "change_from_first pv = map (\<lambda>v. percent_change v (hd pv)) pv"

definition day_over_day :: "series \<Rightarrow> series" where
  \<comment> \<open>day-over-day percent change of a price column: none on the first day, then each
      price relative to the one before (a missing price counts as the last known one)\<close>
  "day_over_day c = (let p = ffill c in map2 percent_change p (NaN # p))"

fun alert_ticker :: "alert \<Rightarrow> string option" where
  \<comment> \<open>the asset an alert names\<close>
  "alert_ticker (StockAlert ticker magnitude threshold) = Some ticker"
| "alert_ticker (PortfolioAlert magnitude threshold) = None"

definition alerts_for ::
  "(string \<times> series) list \<Rightarrow> float64 \<Rightarrow> string \<Rightarrow> alert list" where
  \<comment> \<open>what one turn of the loop over the tickers appends\<close>
  "alerts_for daily_change t k =
     (case map_of daily_change k of
        None \<Rightarrow> []
      | Some c \<Rightarrow> if fle (series_min c) (fneg t)
                  then [StockAlert k (fabs (series_min c)) t] else [])"

fun ema_from :: "real \<Rightarrow> real \<Rightarrow> real list \<Rightarrow> real list" where
  "ema_from alpha prev [] = []"
| "ema_from alpha prev (x # xs) =
     (let y = (1 - alpha) * prev + alpha * x in y # ema_from alpha y xs)"

definition spec_ema :: "real \<Rightarrow> real list \<Rightarrow> real list" where
  \<comment> \<open>the recursive exponential moving average with smoothing factor \<open>alpha\<close>, seeded
      by the first value\<close>
  "spec_ema alpha xs = (case xs of [] \<Rightarrow> [] | x # rest \<Rightarrow> x # ema_from alpha x rest)"

definition last_known :: "series \<Rightarrow> nat \<Rightarrow> float64" where
  \<comment> \<open>the last known price at or before position \<open>i\<close>, NaN when there is none\<close>
  "last_known c i =
     (let known = dropna (take (Suc i) c) in if known = [] then NaN else last known)"

definition first_known :: "series \<Rightarrow> float64" where
  \<comment> \<open>the first known price of the column, NaN when there is none\<close>
  "first_known c = (case dropna c of [] \<Rightarrow> NaN | v # vs \<Rightarrow> v)"

definition spec_fill :: "series \<Rightarrow> series" where
  \<comment> \<open>gaps take the last known price; values still missing, at the start of the
      column, take the first known price\<close>
  "spec_fill c =
     map (\<lambda>i. if last_known c i = NaN then first_known c else last_known c i)
         [0..<length c]"

definition selected_prices :: "download \<Rightarrow> string list \<Rightarrow> error + string dataframe" where
  \<comment> \<open>the price columns of a download under their symbols, before any filling\<close>
  "selected_prices raw tickers =
     (case select_close (download_dropna raw) of
        Inl e \<Rightarrow> Inl e
      | Inr selected \<Rightarrow> flatten_columns tickers selected)"

definition is_float64 :: "float64 \<Rightarrow> bool" where
  \<comment> \<open>a value that float64 holds: a float64 number or a special value\<close>
  "is_float64 a = (case a of Fin y \<Rightarrow> float64_number y | PInf \<Rightarrow> True | NInf \<Rightarrow> True | NaN \<Rightarrow> True)"



section \<open>Arithmetic and series on finite values\<close>

lemma fdiv_NaN_right [simp]: "fdiv a NaN = NaN"
  by (cases a) simp_all

lemma fmul_NaN_right [simp]: "fmul a NaN = NaN"
  by (cases a) simp_all

lemma fadd_NaN_right [simp]: "fadd a NaN = NaN"
  by (cases a) simp_all

lemma fsub_Fin [simp]: "fsub (Fin x) (Fin y) = Fin (x - y)"
  by (simp add: fsub_def)

lemma fsub_NaN_left [simp]: "fsub NaN b = NaN"
  by (simp add: fsub_def)

lemma fsub_NaN_right [simp]: "fsub a NaN = NaN"
  by (simp add: fsub_def)

lemma fle_NaN_right [simp]: "\<not> fle a NaN"
  by (cases a) simp_all

lemma flt_NaN_right [simp]: "\<not> flt a NaN"
  by (cases a) simp_all

lemma dropna_map_Fin [simp]: "dropna (map Fin xs) = map Fin xs"
  by (induction xs) (simp_all add: dropna_def)

lemma dropna_Cons [simp]:
  "dropna (x # xs) = (if x = NaN then dropna xs else x # dropna xs)"
  by (simp add: dropna_def)

lemma dropna_Nil [simp]: "dropna [] = []"
  by (simp add: dropna_def)

lemma fmin_Fin [simp]: "fmin (Fin x) (Fin y) = Fin (min x y)"
  by (simp add: fmin_def min_def)

lemma fmax_Fin [simp]: "fmax (Fin x) (Fin y) = Fin (max x y)"
  by (simp add: fmax_def max_def)

lemma foldl_fmin_Fin: "foldl fmin (Fin v) (map Fin xs) = Fin (Min (set (v # xs)))"
proof (induction xs arbitrary: v)
  case Nil
  show ?case by simp
next
  case (Cons x xs)
  have "Min (set (min v x # xs)) = Min (set (v # x # xs))"
    by (cases "xs = []") (simp_all add: min.assoc)
  with Cons show ?case by simp
qed

lemma foldl_fmax_Fin: "foldl fmax (Fin v) (map Fin xs) = Fin (Max (set (v # xs)))"
proof (induction xs arbitrary: v)
  case Nil
  show ?case by simp
next
  case (Cons x xs)
  have "Max (set (max v x # xs)) = Max (set (v # x # xs))"
    by (cases "xs = []") (simp_all add: max.assoc)
  with Cons show ?case by simp
qed

lemma series_min_Fin: "xs \<noteq> [] \<Longrightarrow> series_min (map Fin xs) = Fin (Min (set xs))"
  by (cases xs) (simp_all add: series_min_def foldl_fmin_Fin)

lemma series_max_Fin: "xs \<noteq> [] \<Longrightarrow> series_max (map Fin xs) = Fin (Max (set xs))"
  by (cases xs) (simp_all add: series_max_def foldl_fmax_Fin)

lemma length_cummax_from [simp]: "length (cummax_from m xs) = length xs"
  by (induction xs arbitrary: m) (simp_all add: Let_def)

lemma cummax_from_Fin_nth:
  "i < length xs \<Longrightarrow>
   cummax_from (Fin m) (map Fin xs) ! i = Fin (max m (Max (set (take (Suc i) xs))))"
proof (induction xs arbitrary: m i)
  case Nil
  then show ?case by simp
next
  case (Cons x xs)
  show ?case
  proof (cases i)
    case 0
    then show ?thesis by (simp add: Let_def max_def)
  next
    case (Suc j)
    with Cons.prems have j: "j < length xs" by simp
    have ne: "set (take (Suc j) xs) \<noteq> {}" using j by (cases xs) simp_all
    have "cummax_from (Fin m) (map Fin (x # xs)) ! i = cummax_from (Fin (max m x)) (map Fin xs) ! j"
      using Suc by (simp add: Let_def max_def)
    also have "\<dots> = Fin (max (max m x) (Max (set (take (Suc j) xs))))"
      using Cons.IH [OF j] .
    also have "max (max m x) (Max (set (take (Suc j) xs))) = max m (Max (set (take (Suc i) (x # xs))))"
      using Suc ne by (simp add: max.assoc)
    finally show ?thesis .
  qed
qed

lemma cummax_Fin_nth:
  assumes "i < length xs"
  shows "cummax (map Fin xs) ! i = Fin (running_maximum xs i)"
proof (cases xs)
  case Nil
  with assms show ?thesis by simp
next
  case (Cons x ys)
  show ?thesis
  proof (cases i)
    case 0
    then show ?thesis using Cons by (simp add: cummax_def running_maximum_def Let_def)
  next
    case (Suc j)
    with assms Cons have j: "j < length ys" by simp
    have ne: "set (take (Suc j) ys) \<noteq> {}" using j by (cases ys) simp_all
    show ?thesis
      using Cons Suc cummax_from_Fin_nth [OF j, of x] ne
      by (simp add: cummax_def running_maximum_def Let_def)
  qed
qed

lemma cummax_Fin: "cummax (map Fin xs) = map (\<lambda>i. Fin (running_maximum xs i)) [0..<length xs]"
  by (rule nth_equalityI) (simp_all add: cummax_def cummax_Fin_nth [unfolded cummax_def])


lemma drawdowns_Fin:
  "map2 fsub (map Fin vs) (cummax (map Fin vs)) =
   map Fin (map (\<lambda>i. vs ! i - running_maximum vs i) [0..<length vs])"
  by (rule nth_equalityI) (simp_all add: cummax_Fin)

lemma cummax_Fin': "cummax (map Fin vs) = map Fin (map (running_maximum vs) [0..<length vs])"
  by (simp add: cummax_Fin)

lemma max_drawdown_Fin:
  assumes "vs \<noteq> []"
  shows "\<exists>m. compute_portfolio_metrics (map Fin vs) = Inr m
             \<and> Max_Drawdown m = spec_max_drawdown vs"
proof -
  let ?n = "length vs"
  have n: "[0..<?n] \<noteq> []" using assms by simp
  have img: "set (map f [0..<?n]) = f ` {..<?n}" for f :: "nat \<Rightarrow> real"
    by (simp add: atLeast0LessThan)
  have "series_min (map Fin (map (\<lambda>i. vs ! i - running_maximum vs i) [0..<?n])) =
        Fin (Min (set (map (\<lambda>i. vs ! i - running_maximum vs i) [0..<?n])))"
    by (rule series_min_Fin) (use assms in simp)
  then have num: "series_min (map2 fsub (map Fin vs) (cummax (map Fin vs))) =
             Fin (Min ((\<lambda>i. vs ! i - running_maximum vs i) ` {..<?n}))"
    by (simp only: drawdowns_Fin img)
  have "series_max (map Fin (map (running_maximum vs) [0..<?n])) =
        Fin (Max (set (map (running_maximum vs) [0..<?n])))"
    by (rule series_max_Fin) (use assms in simp)
  then have den: "series_max (cummax (map Fin vs)) = Fin (Max (running_maximum vs ` {..<?n}))"
    by (simp only: cummax_Fin' img)
  show ?thesis
    using assms by (simp add: compute_portfolio_metrics_def Let_def num den spec_max_drawdown_def)
qed

lemma running_maximum_increasing:
  assumes "sorted_wrt (<) vs" and "i < length vs"
  shows "running_maximum vs i = vs ! i"
proof -
  have "\<forall>x \<in> set (take (Suc i) vs). x \<le> vs ! i"
  proof
    fix x assume "x \<in> set (take (Suc i) vs)"
    then obtain j where j: "j < Suc i" "j < length vs" "x = vs ! j"
      by (auto simp: in_set_conv_nth)
    show "x \<le> vs ! i"
    proof (cases "j = i")
      case True with j show ?thesis by simp
    next
      case False
      with j have "j < i" by simp
      with assms j show ?thesis by (simp add: sorted_wrt_nth_less less_imp_le)
    qed
  qed
  moreover have "vs ! i \<in> set (take (Suc i) vs)"
    using assms(2) by (auto simp: in_set_conv_nth intro!: exI [of _ i])
  ultimately show ?thesis
    unfolding running_maximum_def by (intro Max_eqI) auto
qed

lemma running_maximum_ge: "i < length vs \<Longrightarrow> vs ! i \<le> running_maximum vs i"
  unfolding running_maximum_def
  by (rule Max_ge) (auto simp: in_set_conv_nth intro!: exI [of _ i])

lemma running_maximum_in: "i < length vs \<Longrightarrow> running_maximum vs i \<in> set vs"
proof -
  assume i: "i < length vs"
  then have "set (take (Suc i) vs) \<noteq> {}" by (cases vs) simp_all
  then have "Max (set (take (Suc i) vs)) \<in> set (take (Suc i) vs)" by simp
  then show ?thesis unfolding running_maximum_def by (auto dest: in_set_takeD)
qed

lemma spec_max_drawdown_increasing:
  assumes "vs \<noteq> []" "sorted_wrt (<) vs" "last vs \<noteq> 0"
  shows "spec_max_drawdown vs = Fin 0"
proof -
  let ?n = "length vs"
  have ne: "{..<?n} \<noteq> {}" using assms(1) by auto
  have "(\<lambda>i. vs ! i - running_maximum vs i) ` {..<?n} = {0}"
    using ne assms(2) by (auto simp: running_maximum_increasing)
  then have num: "Min ((\<lambda>i. vs ! i - running_maximum vs i) ` {..<?n}) = 0" by simp
  have img: "running_maximum vs ` {..<?n} = set vs"
    using assms(2) by (auto simp: running_maximum_increasing in_set_conv_nth image_iff)
  have "\<forall>x \<in> set vs. x \<le> last vs"
  proof
    fix x assume "x \<in> set vs"
    then obtain j where j: "j < ?n" "x = vs ! j" by (auto simp: in_set_conv_nth)
    show "x \<le> last vs"
    proof (cases "j = ?n - 1")
      case True with j assms(1) show ?thesis by (simp add: last_conv_nth)
    next
      case False
      with j have "j < ?n - 1" by simp
      with assms j show ?thesis
        by (simp add: last_conv_nth sorted_wrt_nth_less less_imp_le)
    qed
  qed
  then have den: "Max (set vs) = last vs"
    using assms(1) by (intro Max_eqI) auto
  show ?thesis
    using assms(3) by (simp add: spec_max_drawdown_def num img den)
qed

lemma spec_max_drawdown_nonpos:
  assumes "vs \<noteq> []" "\<forall>v \<in> set vs. 0 < v"
  shows "\<exists>d. spec_max_drawdown vs = Fin d \<and> d \<le> 0"
proof -
  let ?n = "length vs"
  let ?D = "(\<lambda>i. vs ! i - running_maximum vs i) ` {..<?n}"
  let ?R = "running_maximum vs ` {..<?n}"
  have ne: "{..<?n} \<noteq> {}" using assms(1) by auto
  have zero: "0 < ?n" using assms(1) by simp
  have "Min ?D \<le> vs ! 0 - running_maximum vs 0"
    using zero by (intro Min_le) auto
  also have "\<dots> \<le> 0" using running_maximum_ge [OF zero] by simp
  finally have num: "Min ?D \<le> 0" .
  have "Max ?R \<in> ?R" using ne by (intro Max_in) auto
  then have "Max ?R \<in> set vs" using running_maximum_in by auto
  with assms(2) have den: "0 < Max ?R" by blast
  have "spec_max_drawdown vs = Fin (Min ?D / Max ?R)"
    using den by (simp add: spec_max_drawdown_def)
  moreover have "Min ?D / Max ?R \<le> 0"
    using num den by (simp add: divide_nonpos_pos)
  ultimately show ?thesis by blast
qed

section \<open>Rounding\<close>

lemma pow2_powr: "pow2 e = 2 powr (real_of_int e)"
proof (cases "0 \<le> e")
  case True
  then have "2 powr real_of_int e = 2 powr real (nat e)" by simp
  also have "\<dots> = 2 ^ nat e" by (simp add: powr_realpow)
  finally show ?thesis using True by (simp add: pow2_def)
next
  case False
  then have "2 powr real_of_int e = 2 powr (- real (nat (- e)))" by simp
  also have "\<dots> = 1 / 2 powr real (nat (- e))" by (simp add: powr_minus divide_inverse)
  also have "\<dots> = 1 / 2 ^ nat (- e)" by (simp add: powr_realpow)
  finally show ?thesis using False by (simp add: pow2_def)
qed

lemma pow2_pos [simp]: "0 < pow2 e"
  by (simp add: pow2_powr)

lemma pow2_add: "pow2 (a + b) = pow2 a * pow2 b"
  by (simp add: pow2_powr powr_add)

lemma pow2_shift: "pow2 (e + int k) = 2 ^ k * pow2 e"
proof -
  have "pow2 (int k) = 2 ^ k" by (simp add: pow2_def)
  then show ?thesis using pow2_add [of "int k" e] by (simp add: add.commute)
qed


lemma pow2_strict_mono: "a < b \<Longrightarrow> pow2 a < pow2 b"
  by (simp add: pow2_powr)

lemma expo_normal:
  assumes "pow2 e \<le> \<bar>x\<bar>" and "\<bar>x\<bar> < pow2 (e + 1)" and "- 1022 \<le> e"
  shows "expo x = e"
proof -
  have pos: "0 < \<bar>x\<bar>" using assms(1) pow2_pos [of e] by linarith
  have "\<lfloor>log 2 \<bar>x\<bar>\<rfloor> = e"
    using assms(1,2) pos by (subst floor_log_eq_powr_iff) (simp_all add: pow2_powr)
  with assms(3) show ?thesis by (simp add: expo_def)
qed

lemma expo_subnormal:
  assumes "x \<noteq> 0" and "\<bar>x\<bar> < pow2 (- 1022)"
  shows "expo x = - 1022"
proof -
  have pos: "0 < \<bar>x\<bar>" using assms(1) by simp
  have "log 2 \<bar>x\<bar> < - 1022"
    using assms(2) pos by (simp add: pow2_powr log_less_iff)
  then have "\<lfloor>log 2 \<bar>x\<bar>\<rfloor> < - 1022" by linarith
  then show ?thesis by (simp add: expo_def)
qed

lemma round64_normal:
  assumes "pow2 e \<le> \<bar>x\<bar>" and "\<bar>x\<bar> < pow2 (e + 1)" and "- 1022 \<le> e"
    and "u = pow2 (e - 52)" and "n = rne (x / u)" and "y = real_of_int n * u"
    and "\<bar>y\<bar> \<le> max64"
  shows "round64 x = Fin y"
proof -
  have "0 < \<bar>x\<bar>" using assms(1) pow2_pos [of e] by linarith
  then have "x \<noteq> 0" by simp
  moreover have "ulp x = u" using expo_normal [OF assms(1-3)] assms(4) by (simp add: ulp_def)
  ultimately show ?thesis using assms(5-7) by (simp add: round64_def Let_def)
qed

lemma expo_ge: "- 1022 \<le> expo x"
  by (simp add: expo_def)

lemma expo_upper:
  assumes "x \<noteq> 0"
  shows "\<bar>x\<bar> < pow2 (expo x + 1)"
proof -
  have pos: "0 < \<bar>x\<bar>" using assms by simp
  have "log 2 \<bar>x\<bar> < real_of_int \<lfloor>log 2 \<bar>x\<bar>\<rfloor> + 1" by linarith
  also have "\<dots> \<le> real_of_int (expo x + 1)" by (simp add: expo_def)
  finally have "log 2 \<bar>x\<bar> < real_of_int (expo x + 1)" .
  then show ?thesis using pos by (simp add: pow2_powr log_less_iff)
qed

lemma expo_lower:
  assumes "x \<noteq> 0" and "- 1022 < expo x"
  shows "pow2 (expo x) \<le> \<bar>x\<bar>"
proof -
  have pos: "0 < \<bar>x\<bar>" using assms(1) by simp
  have "expo x = \<lfloor>log 2 \<bar>x\<bar>\<rfloor>" using assms(2) by (simp add: expo_def max_def split: if_splits)
  then have "real_of_int (expo x) \<le> log 2 \<bar>x\<bar>" by simp
  then show ?thesis using pos by (simp add: pow2_powr le_log_iff)
qed

lemma rne_of_int [simp]: "rne (real_of_int m) = m"
  by (simp add: rne_def)

lemma rne_ge_floor: "\<lfloor>y\<rfloor> \<le> rne y"
  by (simp add: rne_def Let_def)

lemma rne_le_floor: "rne y \<le> \<lfloor>y\<rfloor> + 1"
  by (simp add: rne_def Let_def)

lemma rne_lower:
  assumes "real_of_int k \<le> y"
  shows "k \<le> rne y"
proof -
  from assms have "k \<le> \<lfloor>y\<rfloor>" by (simp add: le_floor_iff)
  with rne_ge_floor [of y] show ?thesis by linarith
qed

lemma rne_upper:
  assumes "y \<le> real_of_int k"
  shows "rne y \<le> k"
proof (cases "y = real_of_int k")
  case True
  then show ?thesis by simp
next
  case False
  with assms have "y < real_of_int k" by simp
  then have "\<lfloor>y\<rfloor> < k" by (simp add: floor_less_iff)
  with rne_le_floor [of y] show ?thesis by linarith
qed

lemma round64_of_number:
  assumes "float64_number y"
  shows "round64 y = Fin y"
proof (cases "y = 0")
  case True
  then show ?thesis by (simp add: round64_def)
next
  case False
  from assms obtain m :: int where m: "y = real_of_int m * ulp y" and le: "\<bar>y\<bar> \<le> max64"
    by (auto simp: float64_number_def)
  have "0 < ulp y" by (simp add: ulp_def)
  then have u: "ulp y \<noteq> 0" by simp
  have "y / ulp y = real_of_int m" using m u by (metis nonzero_mult_div_cancel_right)
  then have "real_of_int (rne (y / ulp y)) * ulp y = y" using m by simp
  then show ?thesis using False le by (simp add: round64_def Let_def)
qed

lemma round64_number:
  assumes "round64 x = Fin y"
  shows "float64_number y"
proof (cases "x = 0")
  case True
  with assms have "y = 0" by (simp add: round64_def)
  then show ?thesis by (simp add: float64_number_def max64_def)
next
  case False
  define e where "e = expo x"
  define u where "u = pow2 (e - 52)"
  define n where "n = rne (x / u)"
  have upos: "0 < u" by (simp add: u_def)
  have ux: "ulp x = u" by (simp add: ulp_def u_def e_def)
  from assms False have y: "y = real_of_int n * u" and le: "\<bar>y\<bar> \<le> max64"
    by (auto simp: round64_def Let_def ux n_def split: if_splits)
  have e_ge: "- 1022 \<le> e" by (simp add: e_def expo_ge)
  have p53: "pow2 (e + 1) = 2 ^ 53 * u"
    using pow2_shift [of "e - 52" 53] by (simp add: u_def add.commute)
  have p52: "pow2 e = 2 ^ 52 * u"
    using pow2_shift [of "e - 52" 52] by (simp add: u_def)
  have "\<bar>x\<bar> < 2 ^ 53 * u" using expo_upper [OF False] by (simp add: e_def [symmetric] p53)
  then have xu: "\<bar>x / u\<bar> < 2 ^ 53" using upos by (simp add: field_simps abs_mult)
  have "x / u < 2 ^ 53" and "- (2 ^ 53) < x / u" using xu by linarith+
  then have hi: "x / u \<le> real_of_int (2 ^ 53)" and lo: "real_of_int (- (2 ^ 53)) \<le> x / u"
    by simp_all
  have n_hi: "n \<le> 2 ^ 53" unfolding n_def using hi by (rule rne_upper)
  have n_lo: "- (2 ^ 53) \<le> n" unfolding n_def using lo by (rule rne_lower)
  have big: "2 ^ 52 \<le> \<bar>n\<bar>" if "- 1022 < e"
  proof -
    have "2 ^ 52 * u \<le> \<bar>x\<bar>" using expo_lower [OF False] that by (simp add: e_def [symmetric] p52)
    then have ge: "2 ^ 52 \<le> \<bar>x / u\<bar>" using upos by (simp add: field_simps abs_mult)
    show ?thesis
    proof (cases "0 \<le> x / u")
      case True
      with ge have "real_of_int (2 ^ 52) \<le> x / u" by simp
      then have "2 ^ 52 \<le> n" unfolding n_def by (rule rne_lower)
      then show ?thesis by simp
    next
      case False
      with ge have "x / u \<le> real_of_int (- (2 ^ 52))" by simp
      then have "n \<le> - (2 ^ 52)" unfolding n_def by (rule rne_upper)
      then show ?thesis by simp
    qed
  qed
  have absy: "\<bar>y\<bar> = real_of_int \<bar>n\<bar> * u" using upos by (simp add: y abs_mult)
  show ?thesis
  proof (cases "n = 0")
    case True
    then show ?thesis by (simp add: y float64_number_def max64_def)
  next
    case n0: False
    then have y0: "y \<noteq> 0" using upos by (simp add: y)
    consider (top) "\<bar>n\<bar> = 2 ^ 53" | (normal) "2 ^ 52 \<le> \<bar>n\<bar>" "\<bar>n\<bar> < 2 ^ 53"
      | (sub) "\<bar>n\<bar> < 2 ^ 52"
      using n_hi n_lo by (cases "2 ^ 52 \<le> \<bar>n\<bar>"; cases "\<bar>n\<bar> = 2 ^ 53") auto
    then show ?thesis
    proof cases
      case top
      then have "\<bar>y\<bar> = pow2 (e + 1)" by (simp add: absy p53)
      then have "pow2 (e + 1) \<le> \<bar>y\<bar>" "\<bar>y\<bar> < pow2 (e + 1 + 1)"
        using pow2_strict_mono [of "e + 1" "e + 1 + 1"] by simp_all
      then have "expo y = e + 1" using e_ge by (intro expo_normal) simp_all
      then have uy: "ulp y = 2 * u"
        using pow2_shift [of "e - 52" 1] by (simp add: ulp_def u_def)
      have "n = 2 * 2 ^ 52 \<or> n = 2 * (- (2 ^ 52))" using top by (auto simp: abs_if split: if_splits)
      then obtain m where "n = 2 * m" by blast
      then have "y = real_of_int m * ulp y" unfolding uy by (simp add: y)
      then show ?thesis using le by (auto simp: float64_number_def)
    next
      case normal
      have "pow2 e \<le> \<bar>y\<bar>" using normal(1) upos by (simp add: absy p52)
      moreover have "\<bar>y\<bar> < pow2 (e + 1)"
      proof -
        have "real_of_int \<bar>n\<bar> < 2 ^ 53" using normal(2) by (metis of_int_less_numeral_power_cancel_iff)
        then show ?thesis using upos by (simp add: absy p53)
      qed
      ultimately have "expo y = e" using e_ge by (rule expo_normal)
      then have "ulp y = u" by (simp add: ulp_def u_def)
      then show ?thesis using y le by (auto simp: float64_number_def)
    next
      case sub
      with big have e: "e = - 1022" using e_ge by force
      have "real_of_int \<bar>n\<bar> < 2 ^ 52" using sub by (metis of_int_less_numeral_power_cancel_iff)
      then have "\<bar>y\<bar> < pow2 e" using upos by (simp add: absy p52)
      then have "expo y = - 1022" using y0 e by (intro expo_subnormal) simp_all
      then have "ulp y = u" by (simp add: ulp_def u_def e)
      then show ?thesis using y le by (auto simp: float64_number_def)
    qed
  qed
qed

lemma round64_idem: "round64 x = Fin y \<Longrightarrow> round64 y = Fin y"
  by (rule round64_of_number) (rule round64_number)

lemma round64_zero [simp]: "round64 0 = Fin 0"
  by (simp add: round64_def)

lemma round64_is_float64: "is_float64 (round64 x)"
proof (cases "round64 x")
  case (Fin y)
  then show ?thesis using round64_number [of x y] by (simp add: is_float64_def)
qed (simp_all add: is_float64_def)

lemma rnd_is_float64: "is_float64 (rnd a)"
  by (cases a) (simp_all add: round64_is_float64, simp_all add: is_float64_def)

lemma rnd_id: "is_float64 a \<Longrightarrow> rnd a = a"
  by (cases a) (simp_all add: is_float64_def round64_of_number)

lemma radd_is_float64 [simp]: "is_float64 (radd a b)"
  and rsub_is_float64 [simp]: "is_float64 (rsub a b)"
  and rmul_is_float64 [simp]: "is_float64 (rmul a b)"
  and rdiv_is_float64 [simp]: "is_float64 (rdiv a b)"
  by (simp_all add: radd_def rsub_def rmul_def rdiv_def rnd_is_float64)

lemma radd_zero_left: "is_float64 a \<Longrightarrow> radd (Fin 0) a = a"
  by (cases a) (simp_all add: radd_def is_float64_def round64_of_number)

lemma rmul_one_right: "is_float64 a \<Longrightarrow> rmul a (Fin 1) = a"
  by (cases a) (simp_all add: rmul_def is_float64_def round64_of_number)

lemma rdiv_one_right: "is_float64 a \<Longrightarrow> rdiv a (Fin 1) = a"
  by (cases a) (simp_all add: rdiv_def is_float64_def round64_of_number)

lemma round64_one [simp]: "round64 1 = Fin 1"
  by (rule round64_normal [where e = 0 and u = "1 / 2 ^ 52" and n = "2 ^ 52"])
     (simp_all add: pow2_def rne_def max64_def)

lemma rdiv_self: "p \<noteq> 0 \<Longrightarrow> rdiv (Fin p) (Fin p) = Fin 1"
  by (simp add: rdiv_def)






text \<open>The roundings that the examples below need.\<close>

lemma round64_value_1: "round64 (9 / 10) = Fin (8106479329266893 / 9007199254740992)"
  by (rule round64_normal [where e = "- 1" and u = "1 / 2 ^ 53" and n = "8106479329266893"])
     (simp_all add: pow2_def rne_def max64_def)

lemma round64_value_2: "round64 (- (900719925474099 / 9007199254740992)) = Fin (- (900719925474099 / 9007199254740992))"
  by (rule round64_normal [where e = "- 4" and u = "1 / 2 ^ 56" and n = "- 7205759403792792"])
     (simp_all add: pow2_def rne_def max64_def)

lemma round64_value_3: "round64 (- (22517998136852475 / 2251799813685248)) = Fin (- (5629499534213119 / 562949953421312))"
  by (rule round64_normal [where e = "3" and u = "1 / 2 ^ 49" and n = "- 5629499534213119"])
     (simp_all add: pow2_def rne_def max64_def)

lemma round64_value_4: "round64 (19 / 20) = Fin (4278419646001971 / 4503599627370496)"
  by (rule round64_normal [where e = "- 1" and u = "1 / 2 ^ 53" and n = "8556839292003942"])
     (simp_all add: pow2_def rne_def max64_def)

lemma round64_value_5: "round64 (- (225179981368525 / 4503599627370496)) = Fin (- (225179981368525 / 4503599627370496))"
  by (rule round64_normal [where e = "- 5" and u = "1 / 2 ^ 57" and n = "- 7205759403792800"])
     (simp_all add: pow2_def rne_def max64_def)

lemma round64_value_6: "round64 (- (5629499534213125 / 1125899906842624)) = Fin (- (5629499534213125 / 1125899906842624))"
  by (rule round64_normal [where e = "2" and u = "1 / 2 ^ 50" and n = "- 5629499534213125"])
     (simp_all add: pow2_def rne_def max64_def)

lemma round64_value_7: "round64 (1 / 2) = Fin (1 / 2)"
  by (rule round64_normal [where e = "- 1" and u = "1 / 2 ^ 53" and n = "4503599627370496"])
     (simp_all add: pow2_def rne_def max64_def)

lemma round64_value_8: "round64 (- (1 / 2)) = Fin (- (1 / 2))"
  by (rule round64_normal [where e = "- 1" and u = "1 / 2 ^ 53" and n = "- 4503599627370496"])
     (simp_all add: pow2_def rne_def max64_def)

lemma round64_value_9: "round64 (- 50) = Fin (- 50)"
  by (rule round64_normal [where e = "5" and u = "1 / 2 ^ 47" and n = "- 7036874417766400"])
     (simp_all add: pow2_def rne_def max64_def)

lemma round64_value_10: "round64 (2) = Fin (2)"
  by (rule round64_normal [where e = "1" and u = "1 / 2 ^ 51" and n = "4503599627370496"])
     (simp_all add: pow2_def rne_def max64_def)

lemma round64_value_11: "round64 (100) = Fin (100)"
  by (rule round64_normal [where e = "6" and u = "1 / 2 ^ 46" and n = "7036874417766400"])
     (simp_all add: pow2_def rne_def max64_def)

lemma round64_value_12: "round64 (2 / 3) = Fin (6004799503160661 / 9007199254740992)"
  by (rule round64_normal [where e = "- 1" and u = "1 / 2 ^ 53" and n = "6004799503160661"])
     (simp_all add: pow2_def rne_def max64_def)

lemma round64_value_13: "round64 (6004799503160661 / 9007199254740992) = Fin (6004799503160661 / 9007199254740992)"
  by (rule round64_normal [where e = "- 1" and u = "1 / 2 ^ 53" and n = "6004799503160661"])
     (simp_all add: pow2_def rne_def max64_def)

lemma round64_value_14: "round64 (18764998447377065625 / 281474976710656) = Fin (2290649224533333 / 34359738368)"
  by (rule round64_normal [where e = "16" and u = "1 / 2 ^ 36" and n = "4581298449066666"])
     (simp_all add: pow2_def rne_def max64_def)

lemma round64_value_15: "round64 (100000) = Fin (100000)"
  by (rule round64_normal [where e = "16" and u = "1 / 2 ^ 36" and n = "6871947673600000"])
     (simp_all add: pow2_def rne_def max64_def)

lemma round64_value_16: "round64 (2290649224533333 / 3435973836800000) = Fin (1501199875790165 / 2251799813685248)"
  by (rule round64_normal [where e = "- 1" and u = "1 / 2 ^ 53" and n = "6004799503160660"])
     (simp_all add: pow2_def rne_def max64_def)

lemma round64_value_17: "round64 (- (750599937895083 / 2251799813685248)) = Fin (- (750599937895083 / 2251799813685248))"
  by (rule round64_normal [where e = "- 2" and u = "1 / 2 ^ 54" and n = "- 6004799503160664"])
     (simp_all add: pow2_def rne_def max64_def)

lemma round64_value_18: "round64 (- (18764998447377075 / 562949953421312)) = Fin (- (4691249611844269 / 140737488355328))"
  by (rule round64_normal [where e = "5" and u = "1 / 2 ^ 47" and n = "- 4691249611844269"])
     (simp_all add: pow2_def rne_def max64_def)

lemma round64_value_19: "round64 (- (3002399751580331 / 9007199254740992)) = Fin (- (3002399751580331 / 9007199254740992))"
  by (rule round64_normal [where e = "- 2" and u = "1 / 2 ^ 54" and n = "- 6004799503160662"])
     (simp_all add: pow2_def rne_def max64_def)

lemma round64_value_20: "round64 (- (75059993789508275 / 2251799813685248)) = Fin (- (4691249611844267 / 140737488355328))"
  by (rule round64_normal [where e = "5" and u = "1 / 2 ^ 47" and n = "- 4691249611844267"])
     (simp_all add: pow2_def rne_def max64_def)

lemma round64_value_21: "round64 (1 / 4) = Fin (1 / 4)"
  by (rule round64_normal [where e = "- 2" and u = "1 / 2 ^ 54" and n = "4503599627370496"])
     (simp_all add: pow2_def rne_def max64_def)

lemma round64_value_22: "round64 (5 / 4) = Fin (5 / 4)"
  by (rule round64_normal [where e = "0" and u = "1 / 2 ^ 52" and n = "5629499534213120"])
     (simp_all add: pow2_def rne_def max64_def)

lemma round64_value_23: "round64 (125000) = Fin (125000)"
  by (rule round64_normal [where e = "16" and u = "1 / 2 ^ 36" and n = "8589934592000000"])
     (simp_all add: pow2_def rne_def max64_def)

lemmas round64_values =
  round64_value_1 round64_value_2 round64_value_3 round64_value_4
  round64_value_5 round64_value_6 round64_value_7 round64_value_8
  round64_value_9 round64_value_10 round64_value_11 round64_value_12
  round64_value_13 round64_value_14 round64_value_15 round64_value_16
  round64_value_17 round64_value_18 round64_value_19 round64_value_20
  round64_value_21 round64_value_22 round64_value_23

section \<open>Portfolio valuation\<close>

text \<open>
  C7. On an empty PriceTable (no date or no symbol) \<open>compute_portfolio_value\<close> returns the
  empty ValueSeries and raises nothing, whatever the weights and the initial value.
\<close>

theorem compute_portfolio_value_empty:
  "df_empty data \<Longrightarrow> compute_portfolio_value data weights initial_value = Inr []"
  by (simp add: compute_portfolio_value_def)

theorem compute_portfolio_value_empty_witness:
  "df_empty (empty_frame :: string dataframe)
   \<and> compute_portfolio_value empty_frame (Some [(''A'', Fin 0)]) (Fin 0) = Inr []"
proof -
  have e: "df_empty (empty_frame :: string dataframe)"
    by (simp add: df_empty_def empty_frame_def)
  from compute_portfolio_value_empty [OF e, of "Some [(''A'', Fin 0)]" "Fin 0"] e show ?thesis
    by simp
qed












section \<open>Max Drawdown\<close>

text \<open>
  C3. On a ValueSeries of at least 2 points \<open>compute_portfolio_metrics\<close> returns as Max
  Drawdown the minimum over time of (value - running maximum) divided by the maximum of
  the running maximum; on a strictly increasing series whose last value (its all-time
  peak) is not 0 this is 0.
\<close>

theorem max_drawdown_all_time_peak:
  assumes "2 \<le> length vs"
  shows "\<exists>m. compute_portfolio_metrics (map Fin vs) = Inr m
             \<and> Max_Drawdown m = spec_max_drawdown vs
             \<and> (sorted_wrt (<) vs \<and> last vs \<noteq> 0 \<longrightarrow> Max_Drawdown m = Fin 0)"
proof -
  from assms have ne: "vs \<noteq> []" by auto
  from max_drawdown_Fin [OF ne] obtain m where
    m: "compute_portfolio_metrics (map Fin vs) = Inr m" "Max_Drawdown m = spec_max_drawdown vs"
    by blast
  then show ?thesis
    using spec_max_drawdown_increasing [OF ne] by auto
qed

theorem max_drawdown_all_time_peak_witness:
  "2 \<le> length [1, 2, 3 :: real] \<and> sorted_wrt (<) [1, 2, 3 :: real] \<and> last [1, 2, 3 :: real] \<noteq> 0
   \<and> (\<exists>m. compute_portfolio_metrics (map Fin [1, 2, 3]) = Inr m \<and> Max_Drawdown m = Fin 0)"
  using max_drawdown_all_time_peak [of "[1, 2, 3]"] by auto

text \<open>
  As the claim is written, for every strictly increasing series, it fails where the
  all-time peak is 0: the quotient is \<open>0 / 0\<close>.
\<close>

theorem max_drawdown_zero_peak_counterexample:
  "sorted_wrt (<) [- 1, 0 :: real]
   \<and> compute_portfolio_metrics (map Fin [- 1, 0]) =
       Inr \<lparr>Cumulative_Return = Fin (- 1), Annual_Volatility = NaN, Max_Drawdown = NaN\<rparr>
   \<and> NaN \<noteq> Fin 0"
  by (simp add: compute_portfolio_metrics_def Let_def pct_change_def ffill_def fsub_def
      series_std_def cummax_def series_min_def series_max_def)

text \<open>
  C10. On a ValueSeries of at least 2 strictly positive values the Max Drawdown is a
  finite number and is at most 0.
\<close>

theorem max_drawdown_nonpositive:
  assumes "2 \<le> length vs" and "\<forall>v \<in> set vs. 0 < v"
  shows "\<exists>m d. compute_portfolio_metrics (map Fin vs) = Inr m
               \<and> Max_Drawdown m = Fin d \<and> d \<le> 0"
proof -
  from assms(1) have ne: "vs \<noteq> []" by auto
  from max_drawdown_Fin [OF ne] obtain m where
    m: "compute_portfolio_metrics (map Fin vs) = Inr m" "Max_Drawdown m = spec_max_drawdown vs"
    by blast
  from spec_max_drawdown_nonpos [OF ne assms(2)] obtain d where
    "spec_max_drawdown vs = Fin d" "d \<le> 0" by blast
  with m show ?thesis by auto
qed

theorem max_drawdown_nonpositive_witness:
  "2 \<le> length [100, 90, 95 :: real] \<and> list_all (\<lambda>v. 0 < v) [100, 90, 95 :: real]
   \<and> (\<exists>m d. compute_portfolio_metrics (map Fin [100, 90, 95]) = Inr m
              \<and> Max_Drawdown m = Fin d \<and> d \<le> 0)"
  using max_drawdown_nonpositive [of "[100, 90, 95]"] by simp

section \<open>The order of float64 values and the minimum of a series\<close>

lemma fle_refl: "a \<noteq> NaN \<Longrightarrow> fle a a"
  by (cases a) simp_all

lemma fle_trans: "fle a b \<Longrightarrow> fle b c \<Longrightarrow> fle a c"
  by (cases a; cases b; cases c) simp_all

lemma fle_antisym: "fle a b \<Longrightarrow> fle b a \<Longrightarrow> a = b"
  by (cases a; cases b) simp_all

lemma flt_imp_fle: "flt a b \<Longrightarrow> fle a b"
  by (cases a; cases b) simp_all

lemma not_flt_imp_fle: "a \<noteq> NaN \<Longrightarrow> b \<noteq> NaN \<Longrightarrow> \<not> flt b a \<Longrightarrow> fle a b"
  by (cases a; cases b) simp_all

lemma fmin_cases: "fmin a b = a \<or> fmin a b = b"
  by (simp add: fmin_def)

lemma fmin_le_left: "a \<noteq> NaN \<Longrightarrow> b \<noteq> NaN \<Longrightarrow> fle (fmin a b) a"
  by (simp add: fmin_def flt_imp_fle fle_refl)

lemma fmin_le_right: "a \<noteq> NaN \<Longrightarrow> b \<noteq> NaN \<Longrightarrow> fle (fmin a b) b"
  by (simp add: fmin_def not_flt_imp_fle fle_refl)

lemma foldl_fmin_least:
  "v \<noteq> NaN \<Longrightarrow> NaN \<notin> set vs \<Longrightarrow>
   foldl fmin v vs \<in> set (v # vs) \<and> foldl fmin v vs \<noteq> NaN
   \<and> (\<forall>y \<in> set (v # vs). fle (foldl fmin v vs) y)"
proof (induction vs arbitrary: v)
  case Nil
  then show ?case by (simp add: fle_refl)
next
  case (Cons x xs)
  let ?w = "fmin v x"
  from Cons.prems have x: "x \<noteq> NaN" and xs: "NaN \<notin> set xs" by auto
  have w: "?w \<noteq> NaN" using Cons.prems(1) x fmin_cases [of v x] by auto
  from Cons.IH [OF w xs] have
    mem: "foldl fmin ?w xs \<in> set (?w # xs)" and nn: "foldl fmin ?w xs \<noteq> NaN" and
    least: "\<forall>y \<in> set (?w # xs). fle (foldl fmin ?w xs) y"
    by blast+
  from least have lw: "fle (foldl fmin ?w xs) ?w" by simp
  have "fle (foldl fmin ?w xs) v"
    using lw fmin_le_left [OF Cons.prems(1) x] by (rule fle_trans)
  moreover have "fle (foldl fmin ?w xs) x"
    using lw fmin_le_right [OF Cons.prems(1) x] by (rule fle_trans)
  moreover have "foldl fmin ?w xs \<in> set (v # x # xs)"
    using mem fmin_cases [of v x] by auto
  ultimately show ?case using nn least by simp
qed

lemma dropna_set: "set (dropna xs) = set xs - {NaN}"
  by (auto simp: dropna_def)

lemma series_min_NaN: "dropna xs = [] \<Longrightarrow> series_min xs = NaN"
  by (simp add: series_min_def)

lemma series_min_minimum:
  assumes "dropna xs \<noteq> []"
  shows "minimum_of xs (series_min xs)"
proof -
  from assms obtain v vs where vs: "dropna xs = v # vs" by (cases "dropna xs") auto
  have "set (v # vs) = set xs - {NaN}" using dropna_set [of xs] vs by simp
  then have v: "v \<noteq> NaN" and nn: "NaN \<notin> set vs" and sub: "set (v # vs) = set xs - {NaN}"
    by auto
  from foldl_fmin_least [OF v nn] sub show ?thesis
    by (auto simp: minimum_of_def series_min_def vs list_all_iff)
qed

lemma minimum_of_unique: "minimum_of xs m \<Longrightarrow> minimum_of xs m' \<Longrightarrow> m = m'"
  by (auto simp: minimum_of_def list_all_iff intro: fle_antisym)

lemma minimum_of_series_min: "minimum_of xs m \<Longrightarrow> series_min xs = m"
proof -
  assume m: "minimum_of xs m"
  then have "m \<in> set (dropna xs)" by (simp add: minimum_of_def dropna_set)
  then have "dropna xs \<noteq> []" by auto
  from series_min_minimum [OF this] m show ?thesis by (rule minimum_of_unique)
qed

lemma series_min_fle_iff:
  "fle (series_min xs) b \<longleftrightarrow> (\<exists>m. minimum_of xs m \<and> fle m b)"
proof (cases "dropna xs = []")
  case True
  then have "\<not> minimum_of xs m" for m
    by (auto simp: minimum_of_def dropna_def filter_empty_conv)
  with True show ?thesis by (simp add: series_min_NaN)
next
  case False
  from series_min_minimum [OF this] show ?thesis
    by (auto dest: minimum_of_series_min)
qed

section \<open>Sortino ratio\<close>

text \<open>
  C2. On a ValueSeries of at least 2 points none of whose daily returns is negative,
  \<open>compute_sortino_ratio\<close> returns NaN, which is not the number 0; the function has no
  raising path.  The NaN comes out of the standard deviation of an empty selection and
  goes through the division; the guard \<open>downside_std == 0\<close> is false on it.
\<close>

theorem sortino_undefined_without_negative_returns:
  assumes "2 \<le> length pv"
    and "\<forall>r \<in> set (dropna (pct_change pv)). \<not> flt r (Fin 0)"
  shows "compute_sortino_ratio pv risk_free_rate = NaN
         \<and> compute_sortino_ratio pv risk_free_rate \<noteq> Fin 0"
proof -
  from assms(2) have "filter (\<lambda>r. flt r (Fin 0)) (dropna (pct_change pv)) = []"
    by (simp add: filter_empty_conv)
  then show ?thesis
    by (simp add: compute_sortino_ratio_def Let_def series_std_def feq_def)
qed

theorem sortino_undefined_without_negative_returns_witness:
  "2 \<le> length [Fin 1, Fin 2, Fin 3]
   \<and> dropna (pct_change [Fin 1, Fin 2, Fin 3]) = [Fin 1, Fin (1 / 2)]
   \<and> compute_sortino_ratio [Fin 1, Fin 2, Fin 3] (2 / 100) = NaN"
proof -
  have r: "dropna (pct_change [Fin 1, Fin 2, Fin 3]) = [Fin 1, Fin (1 / 2)]"
    by (simp add: pct_change_def ffill_def)
  then have "\<forall>r \<in> set (dropna (pct_change [Fin 1, Fin 2, Fin 3])). \<not> flt r (Fin 0)"
    by simp
  from sortino_undefined_without_negative_returns [OF _ this, of "2 / 100"] r
  show ?thesis by simp
qed

section \<open>Alerts\<close>

text \<open>
  The percent changes are float64 values: \<open>(90 / 100 - 1) * 100\<close> evaluates to
  \<open>-9.999999999999998\<close>, the float64 next above \<open>-10\<close>.
\<close>

lemma percent_change_90_100:
  "percent_change (Fin 90) (Fin 100) = Fin (- (5629499534213119 / 562949953421312))"
  by (simp add: percent_change_def rdiv_def rsub_def rmul_def round64_values)

lemma percent_change_95_100:
  "percent_change (Fin 95) (Fin 100) = Fin (- (5629499534213125 / 1125899906842624))"
  by (simp add: percent_change_def rdiv_def rsub_def rmul_def round64_values)

lemma percent_change_50_100: "percent_change (Fin 50) (Fin 100) = Fin (- 50)"
  by (simp add: percent_change_def rdiv_def rsub_def rmul_def round64_values)

lemma percent_change_100_50: "percent_change (Fin 100) (Fin 50) = Fin 100"
  by (simp add: percent_change_def rdiv_def rsub_def rmul_def round64_values)

lemma percent_change_same: "p \<noteq> 0 \<Longrightarrow> percent_change (Fin p) (Fin p) = Fin 0"
  by (simp add: percent_change_def rdiv_def rsub_def rmul_def)

lemma percent_change_NaN [simp]: "percent_change a NaN = NaN"
  by (simp add: percent_change_def rdiv_def rsub_def rmul_def)

text \<open>
  C4. On a non-empty ValueSeries \<open>check_portfolio_drop\<close> emits an alert exactly when the
  minimum of the percent changes relative to the first value, as float64 computes them,
  is at most \<open>- t\<close> (equality included), and the alert carries the magnitude of that
  minimum, the worst drop over the whole series.
\<close>

theorem check_portfolio_drop_worst_drop:
  assumes "pv \<noteq> []"
  shows "(check_portfolio_drop pv t \<noteq> None
            \<longleftrightarrow> (\<exists>m. minimum_of (change_from_first pv) m \<and> fle m (fneg t)))
         \<and> (\<forall>m. minimum_of (change_from_first pv) m \<and> fle m (fneg t)
                \<longrightarrow> check_portfolio_drop pv t = Some (PortfolioAlert (fabs m) t))"
proof -
  have def: "check_portfolio_drop pv t =
      (if fle (series_min (change_from_first pv)) (fneg t)
       then Some (PortfolioAlert (fabs (series_min (change_from_first pv))) t) else None)"
    using assms
    by (simp add: check_portfolio_drop_def change_from_first_def percent_change_def Let_def)
  show ?thesis
    by (auto simp: def series_min_fle_iff dest: minimum_of_series_min)
qed

theorem check_portfolio_drop_worst_drop_witness:
  "[Fin 100, Fin 90, Fin 95] \<noteq> []
   \<and> change_from_first [Fin 100, Fin 90, Fin 95] =
       [Fin 0, Fin (- (5629499534213119 / 562949953421312)),
        Fin (- (5629499534213125 / 1125899906842624))]
   \<and> minimum_of (change_from_first [Fin 100, Fin 90, Fin 95])
        (Fin (- (5629499534213119 / 562949953421312)))
   \<and> fle (Fin (- (5629499534213119 / 562949953421312))) (fneg (Fin 5))
   \<and> check_portfolio_drop [Fin 100, Fin 90, Fin 95] (Fin 5) =
       Some (PortfolioAlert (Fin (5629499534213119 / 562949953421312)) (Fin 5))
   \<and> \<bar>5629499534213119 / 562949953421312 - (10 :: real)\<bar> < 1 / 10 ^ 14"
proof -
  let ?m = "Fin (- (5629499534213119 / 562949953421312))"
  have c: "change_from_first [Fin 100, Fin 90, Fin 95] =
       [Fin 0, ?m, Fin (- (5629499534213125 / 1125899906842624))]"
    by (simp add: change_from_first_def percent_change_90_100 percent_change_95_100
        percent_change_same)
  have m: "minimum_of (change_from_first [Fin 100, Fin 90, Fin 95]) ?m"
    unfolding c by (simp add: minimum_of_def)
  have le: "fle ?m (fneg (Fin 5))" by simp
  from check_portfolio_drop_worst_drop [of "[Fin 100, Fin 90, Fin 95]" "Fin 5"]
  have "minimum_of (change_from_first [Fin 100, Fin 90, Fin 95]) ?m \<and> fle ?m (fneg (Fin 5))
        \<longrightarrow> check_portfolio_drop [Fin 100, Fin 90, Fin 95] (Fin 5)
              = Some (PortfolioAlert (fabs ?m) (Fin 5))"
    by blast
  with m le have a: "check_portfolio_drop [Fin 100, Fin 90, Fin 95] (Fin 5)
              = Some (PortfolioAlert (Fin (5629499534213119 / 562949953421312)) (Fin 5))"
    by simp
  have close: "\<bar>5629499534213119 / 562949953421312 - (10 :: real)\<bar> < 1 / 10 ^ 14"
    by simp
  from c m le a close show ?thesis by (intro conjI) simp_all
qed

text \<open>
  As the claim is written, with the percent change a number and every tie triggering, it
  fails on a drop of exactly the threshold that float64 does not hit: \<open>100\<close> to \<open>90\<close> is
  a change of \<open>-10\<close> percent, the computed change is above \<open>-10\<close>, and with a threshold
  of \<open>10\<close> no alert is emitted.
\<close>

theorem check_portfolio_drop_tie_counterexample:
  "(90 / 100 - 1) * 100 = (- 10 :: real)
   \<and> check_portfolio_drop [Fin 100, Fin 90] (Fin 10) = None"
  by (simp add: check_portfolio_drop_def series_min_def fmin_def
      percent_change_90_100 [unfolded percent_change_def]
      percent_change_same [unfolded percent_change_def])

text \<open>A computed change that equals the threshold triggers the alert.\<close>

lemma check_portfolio_drop_tie:
  "check_portfolio_drop [Fin 100, Fin 50] (Fin 50) = Some (PortfolioAlert (Fin 50) (Fin 50))"
  by (simp add: check_portfolio_drop_def series_min_def fmin_def
      percent_change_50_100 [unfolded percent_change_def]
      percent_change_same [unfolded percent_change_def])

text \<open>The loop of \<open>check_stock_drops\<close> appends, ticker by ticker, at most one alert.\<close>

lemma stock_loop_concat:
  "stock_loop dc t tickers alerts = alerts @ concat (map (alerts_for dc t) tickers)"
  by (induction tickers arbitrary: alerts) (simp_all add: alerts_for_def Let_def split: option.splits)

lemma alerts_for_ticker: "a \<in> set (alerts_for dc t k) \<Longrightarrow> alert_ticker a = Some k"
  by (auto simp: alerts_for_def split: option.splits if_splits)

lemma filter_alerts_other:
  "k \<notin> set ks \<Longrightarrow>
   filter (\<lambda>a. alert_ticker a = Some k) (concat (map (alerts_for dc t) ks)) = []"
  by (induction ks) (auto simp: filter_empty_conv dest: alerts_for_ticker)

lemma filter_alerts_distinct:
  "distinct ks \<Longrightarrow> k \<in> set ks \<Longrightarrow>
   filter (\<lambda>a. alert_ticker a = Some k) (concat (map (alerts_for dc t) ks)) = alerts_for dc t k"
proof (induction ks)
  case Nil
  then show ?case by simp
next
  case (Cons x xs)
  show ?case
  proof (cases "x = k")
    case True
    with Cons.prems have "k \<notin> set xs" by simp
    then have "filter (\<lambda>a. alert_ticker a = Some k) (concat (map (alerts_for dc t) xs)) = []"
      by (rule filter_alerts_other)
    moreover have "filter (\<lambda>a. alert_ticker a = Some k) (alerts_for dc t k) = alerts_for dc t k"
      by (simp add: filter_id_conv alerts_for_ticker)
    ultimately show ?thesis using True by simp
  next
    case False
    have "filter (\<lambda>a. alert_ticker a = Some k) (alerts_for dc t x) = []"
      using False by (auto simp: filter_empty_conv dest: alerts_for_ticker)
    with Cons False show ?thesis by simp
  qed
qed

lemma check_stock_drops_concat:
  "\<not> df_empty data \<Longrightarrow>
   check_stock_drops data tickers t =
   concat (map (alerts_for (map (\<lambda>(l, c). (l, day_over_day c)) (columns data)) t) tickers)"
proof -
  have d: "\<And>c. map (\<lambda>x. rmul x (Fin 100)) (pct_change_f64 c) = day_over_day c"
    by (simp add: pct_change_f64_def day_over_day_def percent_change_def Let_def
        split_def)
  assume "\<not> df_empty data"
  then show ?thesis by (simp add: check_stock_drops_def stock_loop_concat d)
qed

lemma alerts_for_day_over_day:
  "alerts_for (map (\<lambda>(l, c). (l, day_over_day c)) cols) t k =
   (case map_of cols k of
      None \<Rightarrow> []
    | Some c \<Rightarrow> if fle (series_min (day_over_day c)) (fneg t)
                then [StockAlert k (fabs (series_min (day_over_day c))) t] else [])"
  by (simp add: alerts_for_def map_of_map split: option.splits)

lemma day_over_day_100_90:
  "day_over_day [Fin 100, Fin 90] = [NaN, Fin (- (5629499534213119 / 562949953421312))]"
  by (simp add: day_over_day_def ffill_def percent_change_90_100)

lemma day_over_day_50_100: "day_over_day [Fin 50, Fin 100] = [NaN, Fin 100]"
  by (simp add: day_over_day_def ffill_def percent_change_100_50)

text \<open>
  C5. On a non-empty PriceTable (one column for each symbol) and a ticker list without
  duplicates that names every column, \<open>check_stock_drops\<close> emits exactly one alert for
  each asset whose minimum day-over-day percent change, as float64 computes it, is at most
  \<open>- t\<close>; the alert names the asset and the magnitude of that minimum.  Every alert
  emitted is of this kind, so no other asset gets one.
\<close>

theorem check_stock_drops_one_alert_per_asset:
  assumes "\<not> df_empty data" and "distinct tickers"
    and "distinct (map fst (columns data))"
    and "set (map fst (columns data)) \<subseteq> set tickers"
  shows "(\<forall>k c m. (k, c) \<in> set (columns data)
                  \<and> minimum_of (day_over_day c) m \<and> fle m (fneg t)
            \<longrightarrow> filter (\<lambda>a. alert_ticker a = Some k) (check_stock_drops data tickers t)
                  = [StockAlert k (fabs m) t])
         \<and> (\<forall>a \<in> set (check_stock_drops data tickers t).
               \<exists>k c m. a = StockAlert k (fabs m) t \<and> (k, c) \<in> set (columns data)
                       \<and> minimum_of (day_over_day c) m \<and> fle m (fneg t))"
proof (intro conjI allI impI ballI)
  fix k c m
  assume h: "(k, c) \<in> set (columns data)
             \<and> minimum_of (day_over_day c) m \<and> fle m (fneg t)"
  then have sm: "series_min (day_over_day c) = m" by (simp add: minimum_of_series_min)
  from h assms(3) have mo: "map_of (columns data) k = Some c" by simp
  from h assms(4) have kt: "k \<in> set tickers" by force
  have "filter (\<lambda>a. alert_ticker a = Some k) (check_stock_drops data tickers t)
        = alerts_for (map (\<lambda>(l, c). (l, day_over_day c)) (columns data)) t k"
    using assms(1,2) kt by (simp add: check_stock_drops_concat filter_alerts_distinct)
  also have "\<dots> = [StockAlert k (fabs m) t]"
    using h sm mo by (simp add: alerts_for_day_over_day)
  finally show "filter (\<lambda>a. alert_ticker a = Some k) (check_stock_drops data tickers t)
        = [StockAlert k (fabs m) t]" .
next
  fix a
  assume "a \<in> set (check_stock_drops data tickers t)"
  then obtain k where k: "k \<in> set tickers"
    and a: "a \<in> set (alerts_for (map (\<lambda>(l, c). (l, day_over_day c)) (columns data)) t k)"
    using assms(1) by (auto simp: check_stock_drops_concat)
  from a have "\<exists>c. map_of (columns data) k = Some c
                \<and> fle (series_min (day_over_day c)) (fneg t)
                \<and> a = StockAlert k (fabs (series_min (day_over_day c))) t"
    by (cases "map_of (columns data) k")
       (auto simp: alerts_for_day_over_day split: if_splits)
  then obtain c where c: "map_of (columns data) k = Some c"
    and le: "fle (series_min (day_over_day c)) (fneg t)"
    and eq: "a = StockAlert k (fabs (series_min (day_over_day c))) t"
    by blast
  from c have kc: "(k, c) \<in> set (columns data)" by (rule map_of_SomeD)
  from le have "dropna (day_over_day c) \<noteq> []"
    by (auto simp: series_min_NaN)
  then have "minimum_of (day_over_day c) (series_min (day_over_day c))"
    by (rule series_min_minimum)
  with kc le eq
  show "\<exists>k c m. a = StockAlert k (fabs m) t \<and> (k, c) \<in> set (columns data)
                \<and> minimum_of (day_over_day c) m \<and> fle m (fneg t)"
    by blast
qed

theorem check_stock_drops_one_alert_per_asset_witness:
  "\<not> df_empty \<lparr>index = [1, 2],
               columns = [(''A'', [Fin 100, Fin 90]), (''B'', [Fin 50, Fin 100])]\<rparr>
   \<and> distinct [''B'', ''A'']
   \<and> distinct (map fst [(''A'', [Fin 100, Fin 90]), (''B'', [Fin 50, Fin 100 :: float64])])
   \<and> list_all (\<lambda>k. k \<in> set [''B'', ''A''])
        (map fst [(''A'', [Fin 100, Fin 90]), (''B'', [Fin 50, Fin 100 :: float64])])
   \<and> minimum_of (day_over_day [Fin 100, Fin 90])
        (Fin (- (5629499534213119 / 562949953421312)))
   \<and> fle (Fin (- (5629499534213119 / 562949953421312))) (fneg (Fin 5))
   \<and> filter (\<lambda>a. alert_ticker a = Some ''A'')
        (check_stock_drops
           \<lparr>index = [1, 2],
            columns = [(''A'', [Fin 100, Fin 90]), (''B'', [Fin 50, Fin 100])]\<rparr>
           [''B'', ''A''] (Fin 5))
      = [StockAlert ''A'' (Fin (5629499534213119 / 562949953421312)) (Fin 5)]
   \<and> check_stock_drops
        \<lparr>index = [1, 2],
         columns = [(''A'', [Fin 100, Fin 90]), (''B'', [Fin 50, Fin 100])]\<rparr>
        [''B'', ''A''] (Fin 5)
      = [StockAlert ''A'' (Fin (5629499534213119 / 562949953421312)) (Fin 5)]"
proof -
  let ?cols = "[(''A'', [Fin 100, Fin 90]), (''B'', [Fin 50, Fin 100 :: float64])]"
  let ?data = "\<lparr>index = [1, 2], columns = ?cols\<rparr> :: string dataframe"
  let ?m = "Fin (- (5629499534213119 / 562949953421312))"
  have ne: "\<not> df_empty ?data" by (simp add: df_empty_def)
  have d: "distinct [''B'', ''A'']" by simp
  have dc: "distinct (map fst (columns ?data))" by simp
  have sub: "set (map fst (columns ?data)) \<subseteq> set [''B'', ''A'']" by simp
  have m: "minimum_of (day_over_day [Fin 100, Fin 90]) ?m"
    by (simp add: minimum_of_def day_over_day_100_90)
  have le: "fle ?m (fneg (Fin 5))" by simp
  have v: "check_stock_drops ?data [''B'', ''A''] (Fin 5)
           = [StockAlert ''A'' (Fin (5629499534213119 / 562949953421312)) (Fin 5)]"
    using ne
    by (simp add: check_stock_drops_concat alerts_for_def day_over_day_100_90
        day_over_day_50_100 series_min_def fmin_def)
  from check_stock_drops_one_alert_per_asset
         [OF ne d dc sub, of "Fin 5", THEN conjunct1, rule_format,
          of "''A''" "[Fin 100, Fin 90]" ?m]
  have "filter (\<lambda>a. alert_ticker a = Some ''A'') (check_stock_drops ?data [''B'', ''A''] (Fin 5))
        = [StockAlert ''A'' (fabs ?m) (Fin 5)]"
    using m le by simp
  then have f: "filter (\<lambda>a. alert_ticker a = Some ''A'')
          (check_stock_drops ?data [''B'', ''A''] (Fin 5))
        = [StockAlert ''A'' (Fin (5629499534213119 / 562949953421312)) (Fin 5)]"
    by simp
  have dc': "distinct (map fst ?cols)" by simp
  have la: "list_all (\<lambda>k. k \<in> set [''B'', ''A'']) (map fst ?cols)" by simp
  from ne d dc' la m le f v show ?thesis by (intro conjI)
qed

text \<open>
  As the claim is written, with the percent change a number, it fails on a single-day drop
  of exactly the threshold that float64 does not hit: \<open>100\<close> to \<open>90\<close> is a change of
  \<open>-10\<close> percent, the computed change is above \<open>-10\<close>, and with a threshold of \<open>10\<close>
  the asset gets no alert.
\<close>

theorem check_stock_drops_tie_counterexample:
  "(90 / 100 - 1) * 100 = (- 10 :: real)
   \<and> check_stock_drops \<lparr>index = [1, 2], columns = [(''A'', [Fin 100, Fin 90])]\<rparr> [''A'']
        (Fin 10) = []"
proof -
  have "\<not> df_empty (\<lparr>index = [1, 2], columns = [(''A'', [Fin 100, Fin 90])]\<rparr>
          :: string dataframe)"
    by (simp add: df_empty_def)
  then show ?thesis
    by (simp add: check_stock_drops_concat alerts_for_def day_over_day_100_90
        series_min_def fmin_def)
qed

section \<open>Single-asset portfolios\<close>

lemma is_float64_one [simp]: "is_float64 (Fin 1)"
  using round64_is_float64 [of 1] by simp

lemma rdiv_not_NaN: "q \<noteq> 0 \<Longrightarrow> rdiv (Fin p) (Fin q) \<noteq> NaN"
  by (simp add: rdiv_def round64_def Let_def)

lemma row_sum_single: "is_float64 x \<Longrightarrow> x \<noteq> NaN \<Longrightarrow> row_sum [x] = x"
  by (simp add: row_sum_def dropna_def radd_zero_left)

text \<open>
  With one asset of weight 1.0 the ValueSeries is the price divided by the first price,
  times the initial value, each operation rounded.
\<close>

lemma compute_portfolio_value_single:
  assumes "ps \<noteq> []" and "hd ps \<noteq> 0" and "length idx = length ps"
  shows "compute_portfolio_value \<lparr>index = idx, columns = [(a, map Fin ps)]\<rparr>
           (Some [(a, Fin 1)]) initial_value
         = Inr (map (\<lambda>p. rmul (rdiv (Fin p) (Fin (hd ps))) initial_value) ps)"
proof -
  have hd: "hd (map Fin ps) = Fin (hd ps)" using assms(1) by (simp add: hd_map)
  have ne: "idx \<noteq> []" using assms(1,3) by auto
  have w: "normalize_weights [(a, Fin 1)] = Inr [(a, Fin 1)]"
    by (simp add: normalize_weights_def py_sum_def radd_zero_left rdiv_self)
  have s: "\<And>p. row_sum [rmul (rdiv (Fin p) (Fin (hd ps))) (Fin 1)] = rdiv (Fin p) (Fin (hd ps))"
    using assms(2) by (simp add: rmul_one_right row_sum_single rdiv_not_NaN)
  show ?thesis
    using ne assms(3)
    apply (simp add: compute_portfolio_value_def df_empty_def w row_def hd)
    apply (intro nth_equalityI)
     apply (simp_all add: s)
    done
qed

lemma single_asset_engine_return:
  assumes "2 \<le> length ps" and "hd ps \<noteq> 0"
  shows "cumulative_return (map (\<lambda>p. rmul (rdiv (Fin p) (Fin (hd ps))) initial_value) ps)
         = Inr (rmul (rsub (rdiv (rmul (rdiv (Fin (last ps)) (Fin (hd ps))) initial_value)
                                 (rmul (Fin 1) initial_value))
                           (Fin 1))
                     (Fin 100))"
proof -
  from assms(1) have ne: "ps \<noteq> []" by auto
  then show ?thesis
    using assms(2) by (simp add: cumulative_return_def hd_map last_map rdiv_self)
qed

lemma single_asset_direct_return:
  assumes "2 \<le> length ps"
  shows "cumulative_return (map Fin ps)
         = Inr (rmul (rsub (rdiv (Fin (last ps)) (Fin (hd ps))) (Fin 1)) (Fin 100))"
proof -
  from assms(1) have ne: "ps \<noteq> []" by auto
  then show ?thesis by (simp add: cumulative_return_def hd_map last_map)
qed

text \<open>
  C6. For a PriceTable of a single asset with at least 2 dates and a first price other
  than 0, and weight 1.0, \<open>compute_portfolio_value\<close> returns a ValueSeries whose
  cumulative return is \<open>((r * v) / (1 * v) - 1) * 100\<close> in float64, where \<open>r\<close> is the
  float64 quotient \<open>price[-1] / price[0]\<close> and \<open>v\<close> the initial value; the return
  computed directly on the price column is \<open>(r - 1) * 100\<close> in float64.  With the
  initial value 1 the two are the same float64.
\<close>

theorem single_asset_return_float64:
  assumes "2 \<le> length ps" and "hd ps \<noteq> 0" and "length idx = length ps"
  shows "\<exists>pv pv1.
           compute_portfolio_value \<lparr>index = idx, columns = [(a, map Fin ps)]\<rparr>
             (Some [(a, Fin 1)]) initial_value = Inr pv
         \<and> cumulative_return pv
           = Inr (rmul (rsub (rdiv (rmul (rdiv (Fin (last ps)) (Fin (hd ps))) initial_value)
                                   (rmul (Fin 1) initial_value))
                             (Fin 1))
                       (Fin 100))
         \<and> cumulative_return (map Fin ps)
           = Inr (rmul (rsub (rdiv (Fin (last ps)) (Fin (hd ps))) (Fin 1)) (Fin 100))
         \<and> compute_portfolio_value \<lparr>index = idx, columns = [(a, map Fin ps)]\<rparr>
             (Some [(a, Fin 1)]) (Fin 1) = Inr pv1
         \<and> cumulative_return pv1 = cumulative_return (map Fin ps)"
proof -
  from assms(1) have ne: "ps \<noteq> []" by auto
  let ?pv = "\<lambda>v. map (\<lambda>p. rmul (rdiv (Fin p) (Fin (hd ps))) v) ps"
  have v: "\<And>v. compute_portfolio_value \<lparr>index = idx, columns = [(a, map Fin ps)]\<rparr>
             (Some [(a, Fin 1)]) v = Inr (?pv v)"
    using ne assms(2,3) by (rule compute_portfolio_value_single)
  have e: "\<And>v. cumulative_return (?pv v)
           = Inr (rmul (rsub (rdiv (rmul (rdiv (Fin (last ps)) (Fin (hd ps))) v)
                                   (rmul (Fin 1) v))
                             (Fin 1))
                       (Fin 100))"
    using assms(1,2) by (rule single_asset_engine_return)
  have d: "cumulative_return (map Fin ps)
           = Inr (rmul (rsub (rdiv (Fin (last ps)) (Fin (hd ps))) (Fin 1)) (Fin 100))"
    using assms(1) by (rule single_asset_direct_return)
  have one: "cumulative_return (?pv (Fin 1)) = cumulative_return (map Fin ps)"
    unfolding e d by (simp add: rmul_one_right rdiv_one_right)
  from v e d one show ?thesis by blast
qed

theorem single_asset_return_float64_witness:
  "2 \<le> length [3, 2 :: real] \<and> hd [3, 2 :: real] \<noteq> 0
   \<and> length [1, 2 :: int] = length [3, 2 :: real]
   \<and> (\<exists>pv pv1.
         compute_portfolio_value \<lparr>index = [1, 2], columns = [(''A'', map Fin [3, 2])]\<rparr>
           (Some [(''A'', Fin 1)]) (Fin 100000) = Inr pv
       \<and> cumulative_return pv = Inr (Fin (- (4691249611844269 / 140737488355328)))
       \<and> cumulative_return (map Fin [3, 2])
         = Inr (Fin (- (4691249611844267 / 140737488355328)))
       \<and> compute_portfolio_value \<lparr>index = [1, 2], columns = [(''A'', map Fin [3, 2])]\<rparr>
           (Some [(''A'', Fin 1)]) (Fin 1) = Inr pv1
       \<and> cumulative_return pv1 = Inr (Fin (- (4691249611844267 / 140737488355328))))"
  using single_asset_return_float64 [of "[3, 2]" "[1, 2]" "''A''" "Fin 100000"]
  by (simp add: rdiv_def rmul_def rsub_def round64_values) metis

text \<open>
  As the claim is written, bit-for-bit for every initial value, it fails at the default
  initial value 100000 on the prices \<open>3\<close> and \<open>2\<close>: through the ValueSeries the
  cumulative return is \<open>-33.33333333333335\<close>, directly on the prices it is
  \<open>-33.333333333333336\<close>; before the multiplication by 100 the two are
  \<open>-0.3333333333333335\<close> and \<open>-0.33333333333333337\<close>.
\<close>

theorem single_asset_return_rounding_counterexample:
  "compute_portfolio_value \<lparr>index = [1, 2], columns = [(''A'', [Fin 3, Fin 2])]\<rparr>
     (Some [(''A'', Fin 1)]) (Fin 100000)
     = Inr [Fin 100000, Fin (2290649224533333 / 34359738368)]
   \<and> cumulative_return [Fin 100000, Fin (2290649224533333 / 34359738368)]
     = Inr (Fin (- (4691249611844269 / 140737488355328)))
   \<and> cumulative_return [Fin 3, Fin 2] = Inr (Fin (- (4691249611844267 / 140737488355328)))
   \<and> Fin (- (4691249611844269 / 140737488355328))
     \<noteq> Fin (- (4691249611844267 / 140737488355328))
   \<and> rsub (rdiv (Fin (2290649224533333 / 34359738368)) (Fin 100000)) (Fin 1)
     = Fin (- (750599937895083 / 2251799813685248))
   \<and> rsub (rdiv (Fin 2) (Fin 3)) (Fin 1) = Fin (- (3002399751580331 / 9007199254740992))
   \<and> Fin (- (750599937895083 / 2251799813685248))
     \<noteq> Fin (- (3002399751580331 / 9007199254740992))"
proof -
  have "compute_portfolio_value \<lparr>index = [1, 2], columns = [(''A'', map Fin [3, 2])]\<rparr>
     (Some [(''A'', Fin 1)]) (Fin 100000)
     = Inr (map (\<lambda>p. rmul (rdiv (Fin p) (Fin (hd [3, 2]))) (Fin 100000)) [3, 2])"
    by (rule compute_portfolio_value_single) simp_all
  then have v: "compute_portfolio_value \<lparr>index = [1, 2], columns = [(''A'', [Fin 3, Fin 2])]\<rparr>
     (Some [(''A'', Fin 1)]) (Fin 100000)
     = Inr [Fin 100000, Fin (2290649224533333 / 34359738368)]"
    by (simp add: rdiv_def rmul_def round64_values)
  have e: "cumulative_return [Fin 100000, Fin (2290649224533333 / 34359738368)]
     = Inr (Fin (- (4691249611844269 / 140737488355328)))"
    by (simp add: cumulative_return_def rdiv_def rmul_def rsub_def round64_values)
  have d: "cumulative_return [Fin 3, Fin 2]
     = Inr (Fin (- (4691249611844267 / 140737488355328)))"
    by (simp add: cumulative_return_def rdiv_def rmul_def rsub_def round64_values)
  have q: "rsub (rdiv (Fin (2290649224533333 / 34359738368)) (Fin 100000)) (Fin 1)
     = Fin (- (750599937895083 / 2251799813685248))"
    by (simp add: rdiv_def rsub_def round64_values)
  have r: "rsub (rdiv (Fin 2) (Fin 3)) (Fin 1)
     = Fin (- (3002399751580331 / 9007199254740992))"
    by (simp add: rdiv_def rsub_def round64_values)
  from v e d q r show ?thesis by simp
qed

section \<open>MACD\<close>

lemma length_ema_from [simp]: "length (ema_from alpha prev xs) = length xs"
  by (induction xs arbitrary: prev) (simp_all add: Let_def)

lemma length_spec_ema [simp]: "length (spec_ema alpha xs) = length xs"
  by (cases xs) (simp_all add: spec_ema_def)

lemma spec_ema_seed: "xs \<noteq> [] \<Longrightarrow> spec_ema alpha xs ! 0 = xs ! 0"
  by (cases xs) (simp_all add: spec_ema_def)

lemma ema_from_nth:
  "i < length xs \<Longrightarrow>
   ema_from alpha prev xs ! i =
     (1 - alpha) * (if i = 0 then prev else ema_from alpha prev xs ! (i - 1)) + alpha * xs ! i"
proof (induction xs arbitrary: prev i)
  case Nil
  then show ?case by simp
next
  case (Cons x xs)
  show ?case
  proof (cases i)
    case 0
    then show ?thesis by (simp add: Let_def)
  next
    case (Suc j)
    with Cons.prems have j: "j < length xs" by simp
    show ?thesis
      using Suc Cons.IH [OF j, of "(1 - alpha) * prev + alpha * x"]
      by (cases j) (simp_all add: Let_def)
  qed
qed

lemma spec_ema_step:
  "Suc i < length xs \<Longrightarrow>
   spec_ema alpha xs ! Suc i = (1 - alpha) * spec_ema alpha xs ! i + alpha * xs ! Suc i"
proof (cases xs)
  case Nil
  assume "Suc i < length xs"
  with Nil show ?thesis by simp
next
  case (Cons x rest)
  assume "Suc i < length xs"
  with Cons have i: "i < length rest" by simp
  show ?thesis
    using Cons ema_from_nth [OF i, of alpha x]
    by (cases i) (simp_all add: spec_ema_def)
qed

lemma ewm_loop_Fin:
  "1 \<le> nobs \<Longrightarrow>
   ewm_loop alpha (Fin w) 1 nobs (map Fin xs) = map Fin (ema_from alpha w xs)"
proof (induction xs arbitrary: w nobs)
  case Nil
  show ?case by simp
next
  case (Cons x xs)
  have same: "(1 - alpha) * y + alpha * y = y" for y :: real
    by (simp add: algebra_simps)
  have "1 \<le> nobs + 1" by simp
  from Cons.IH [OF this] show ?case
    by (simp add: Let_def feq_def same)
qed

lemma ewm_mean_Fin:
  "ewm_mean n (map Fin xs) = map Fin (spec_ema (2 / (real n + 1)) xs)"
proof (cases xs)
  case Nil
  then show ?thesis by (simp add: ewm_mean_def spec_ema_def)
next
  case (Cons x rest)
  have alpha: "1 / (1 + (real n - 1) / 2) = 2 / (real n + 1)"
    by (simp add: field_simps)
  show ?thesis
    using Cons ewm_loop_Fin [of 1 "2 / (real n + 1)" x rest]
    by (simp add: ewm_mean_def spec_ema_def Let_def alpha)
qed

lemma map2_fsub_Fin: "map2 fsub (map Fin xs) (map Fin ys) = map Fin (map2 (-) xs ys)"
  by (induction xs arbitrary: ys) (auto simp: zip_Cons1 split: list.splits)

text \<open>
  C9. On a price column without missing values \<open>plot_macd\<close> draws: as MACD line the
  difference of the exponential moving averages of spans 12 and 26 (smoothing factors
  \<open>2 / 13\<close> and \<open>2 / 27\<close>, each seeded by the first price), as signal line the average of
  span 9 of the MACD line (smoothing factor \<open>2 / 10\<close>), and as histogram, at every date,
  the MACD line minus the signal line.
\<close>

theorem plot_macd_lines:
  assumes "map_of (columns data) ticker = Some (map Fin ps)" and "ps \<noteq> []"
  shows "\<exists>ch. plot_macd data ticker = Some ch
           \<and> macd_line ch = map Fin (map2 (-) (spec_ema (2 / 13) ps) (spec_ema (2 / 27) ps))
           \<and> signal_line ch =
               map Fin (spec_ema (2 / 10) (map2 (-) (spec_ema (2 / 13) ps) (spec_ema (2 / 27) ps)))
           \<and> length (histogram ch) = length ps
           \<and> (\<forall>i < length ps. histogram ch ! i = fsub (macd_line ch ! i) (signal_line ch ! i))"
proof -
  let ?macd = "map2 (-) (spec_ema (2 / 13) ps) (spec_ema (2 / 27) ps)"
  have e12: "ewm_mean 12 (map Fin ps) = map Fin (spec_ema (2 / 13) ps)"
    using ewm_mean_Fin [of 12 ps] by simp
  have e26: "ewm_mean 26 (map Fin ps) = map Fin (spec_ema (2 / 27) ps)"
    using ewm_mean_Fin [of 26 ps] by simp
  have macd: "map2 fsub (ewm_mean 12 (map Fin ps)) (ewm_mean 26 (map Fin ps)) = map Fin ?macd"
    by (simp only: e12 e26 map2_fsub_Fin)
  have sig: "ewm_mean 9 (map Fin ?macd) = map Fin (spec_ema (2 / 10) ?macd)"
    using ewm_mean_Fin [of 9 ?macd] by simp
  have notnull: "\<not> list_all (\<lambda>x. x = NaN) (map Fin ps)"
    using assms(2) by (cases ps) simp_all
  have ch: "plot_macd data ticker =
        Some \<lparr>macd_line = map Fin ?macd, signal_line = map Fin (spec_ema (2 / 10) ?macd),
              histogram = map2 fsub (map Fin ?macd) (map Fin (spec_ema (2 / 10) ?macd))\<rparr>"
    using assms(1) notnull by (simp only: plot_macd_def Let_def option.case macd sig if_False)
  show ?thesis
    unfolding ch by (simp add: map2_fsub_Fin)
qed

theorem plot_macd_lines_witness:
  "map_of (columns \<lparr>index = [1, 2], columns = [(''A'', map Fin [1, 2])]\<rparr>) ''A''
     = Some (map Fin [1, 2])
   \<and> [1, 2 :: real] \<noteq> []
   \<and> (\<exists>ch. plot_macd \<lparr>index = [1, 2], columns = [(''A'', map Fin [1, 2])]\<rparr> ''A'' = Some ch
          \<and> macd_line ch = [Fin 0, Fin (28 / 351)]
          \<and> signal_line ch = [Fin 0, Fin (28 / 1755)])"
  using plot_macd_lines [of "\<lparr>index = [1, 2], columns = [(''A'', map Fin [1, 2])]\<rparr>" "''A''" "[1, 2]"]
  by (simp add: spec_ema_def, blast)

section \<open>Filling missing prices\<close>

lemma dropna_append [simp]: "dropna (xs @ ys) = dropna xs @ dropna ys"
  by (simp add: dropna_def)

lemma dropna_rev: "dropna (rev xs) = rev (dropna xs)"
  by (simp add: dropna_def rev_filter)

lemma length_ffill_from [simp]: "length (ffill_from p xs) = length xs"
  by (induction xs arbitrary: p) simp_all

lemma ffill_from_nth:
  "i < length c \<Longrightarrow>
   ffill_from p c ! i =
     (if dropna (take (Suc i) c) = [] then p else last (dropna (take (Suc i) c)))"
proof (induction c arbitrary: p i)
  case Nil
  then show ?case by simp
next
  case (Cons x xs)
  show ?case
  proof (cases i)
    case 0
    then show ?thesis by simp
  next
    case (Suc j)
    with Cons.prems have j: "j < length xs" by simp
    show ?thesis
      using Suc Cons.IH [OF j] by simp
  qed
qed

lemma length_ffill [simp]: "length (ffill xs) = length xs"
  by (simp add: ffill_def)

lemma length_spec_fill [simp]: "length (spec_fill xs) = length xs"
  by (simp add: spec_fill_def)

lemma ffill_nth: "i < length c \<Longrightarrow> ffill c ! i = last_known c i"
  by (simp add: ffill_def ffill_from_nth last_known_def)

lemma length_bfill [simp]: "length (bfill xs) = length xs"
  by (simp add: bfill_def)

lemma bfill_nth:
  assumes "i < length ys"
  shows "bfill ys ! i = first_known (drop i ys)"
proof -
  let ?n = "length ys"
  have k: "?n - Suc i < length (rev ys)" using assms by simp
  have t: "take (Suc (?n - Suc i)) (rev ys) = rev (drop i ys)"
    using assms by (simp add: take_rev Suc_diff_Suc)
  have "bfill ys ! i = ffill (rev ys) ! (?n - Suc i)"
    using assms by (simp add: bfill_def rev_nth)
  also have "\<dots> = last_known (rev ys) (?n - Suc i)"
    using k by (rule ffill_nth)
  also have "\<dots> = first_known (drop i ys)"
    by (cases "dropna (drop i ys)")
       (simp_all add: last_known_def first_known_def t dropna_rev)
  finally show ?thesis .
qed

lemma ffill_from_replicate_NaN:
  "ffill_from p (replicate k NaN @ xs) = replicate k p @ ffill_from p xs"
  by (induction k) simp_all

lemma first_known_ffill_from: "first_known (ffill_from NaN xs) = first_known xs"
  by (induction xs) (simp_all add: first_known_def)

lemma all_missing_replicate: "dropna xs = [] \<Longrightarrow> xs = replicate (length xs) NaN"
  by (induction xs) (simp_all split: if_splits)

lemma first_known_replicate_NaN: "first_known (replicate k NaN @ xs) = first_known xs"
  by (simp add: first_known_def dropna_def)

lemma bfill_ffill_nth:
  assumes "i < length c"
  shows "bfill (ffill c) ! i = spec_fill c ! i"
proof (cases "last_known c i = NaN")
  case False
  have "drop i (ffill c) = ffill c ! i # drop (Suc i) (ffill c)"
    using assms by (simp add: Cons_nth_drop_Suc)
  then have "first_known (drop i (ffill c)) = last_known c i"
    using False assms by (simp add: first_known_def ffill_nth)
  then show ?thesis
    using assms False by (simp add: bfill_nth spec_fill_def)
next
  case True
  have none: "dropna (take (Suc i) c) = []"
  proof (rule ccontr)
    assume ne: "dropna (take (Suc i) c) \<noteq> []"
    then have "last (dropna (take (Suc i) c)) \<in> set (dropna (take (Suc i) c))" by simp
    then have "last (dropna (take (Suc i) c)) \<noteq> NaN" by (simp add: dropna_def)
    with True ne show False by (simp add: last_known_def)
  qed
  have len: "length (take (Suc i) c) = Suc i" using assms by simp
  have pre: "take (Suc i) c = replicate (Suc i) NaN"
    using all_missing_replicate [OF none] unfolding len .
  have c: "c = replicate (Suc i) NaN @ drop (Suc i) c"
    using pre append_take_drop_id [of "Suc i" c] by simp
  have "ffill c = replicate (Suc i) NaN @ ffill_from NaN (drop (Suc i) c)"
    unfolding ffill_def by (subst c) (rule ffill_from_replicate_NaN)
  moreover have "drop i (replicate (Suc i) NaN @ xs) = NaN # xs" for xs :: series
    by (induction i) simp_all
  ultimately have "drop i (ffill c) = NaN # ffill_from NaN (drop (Suc i) c)"
    by (simp only:)
  then have "first_known (drop i (ffill c)) = first_known (drop (Suc i) c)"
    using first_known_replicate_NaN [of 1 "ffill_from NaN (drop (Suc i) c)"]
    by (simp add: first_known_ffill_from)
  also have "\<dots> = first_known c"
    by (subst (2) c) (simp only: first_known_replicate_NaN)
  finally show ?thesis
    using assms True by (simp add: bfill_nth spec_fill_def)
qed

lemma bfill_ffill: "bfill (ffill c) = spec_fill c"
  by (rule nth_equalityI) (simp_all add: bfill_ffill_nth)


lemma first_known_valid: "dropna c \<noteq> [] \<Longrightarrow> first_known c \<noteq> NaN"
proof -
  assume "dropna c \<noteq> []"
  then obtain v vs where vs: "dropna c = v # vs" by (cases "dropna c") auto
  then have "v \<in> set (dropna c)" by simp
  then have "v \<noteq> NaN" by (simp add: dropna_def)
  with vs show ?thesis by (simp add: first_known_def)
qed

lemma first_known_missing: "dropna c = [] \<Longrightarrow> first_known c = NaN"
  by (simp add: first_known_def)

lemma last_known_missing: "dropna c = [] \<Longrightarrow> last_known c i = NaN"
proof -
  assume "dropna c = []"
  then have "\<forall>x \<in> set c. x = NaN" by (auto simp: dropna_def filter_empty_conv)
  then have "dropna (take (Suc i) c) = []"
    by (auto simp: dropna_def filter_empty_conv dest: in_set_takeD)
  then show ?thesis by (simp add: last_known_def)
qed

lemma spec_fill_no_missing:
  assumes "dropna c \<noteq> []"
  shows "NaN \<notin> set (spec_fill c)"
  using first_known_valid [OF assms] by (auto simp: spec_fill_def)

lemma spec_fill_all_missing:
  assumes "dropna c = []"
  shows "dropna (spec_fill c) = []"
  using assms
  by (simp add: spec_fill_def dropna_def filter_empty_conv last_known_missing
      first_known_missing)

lemma spec_fill_kept: "dropna (spec_fill c) = [] \<longleftrightarrow> dropna c = []"
proof
  assume e: "dropna (spec_fill c) = []"
  show "dropna c = []"
  proof (rule ccontr)
    assume ne: "dropna c \<noteq> []"
    then have "c \<noteq> []" by auto
    then have "spec_fill c \<noteq> []" by (simp add: spec_fill_def)
    moreover have "dropna (spec_fill c) = spec_fill c"
      using spec_fill_no_missing [OF ne] by (auto simp: dropna_def filter_id_conv)
    ultimately show False using e by simp
  qed
next
  assume "dropna c = []"
  then show "dropna (spec_fill c) = []" by (rule spec_fill_all_missing)
qed

lemma set_loc_rows: "set (loc_rows s e idx c) \<subseteq> set c"
  by (auto simp: loc_rows_def dest: set_zip_rightD)

lemma filled_columns:
  "columns (loc_slice s e (dropna_columns (fill_missing (flat :: string dataframe)))) =
   map (\<lambda>(l, c). (l, loc_rows s e (index flat) (spec_fill c)))
       (filter (\<lambda>(l, c). dropna c \<noteq> []) (columns flat))"
proof -
  have f: "filter (\<lambda>(l, c). dropna c \<noteq> []) (map (\<lambda>(l, c). (l, bfill (ffill c))) cs) =
        map (\<lambda>(l, c). (l, spec_fill c)) (filter (\<lambda>(l, c). dropna c \<noteq> []) cs)"
    for cs :: "(string \<times> series) list"
    by (induction cs) (auto simp: bfill_ffill spec_fill_kept)
  have "columns (loc_slice s e (dropna_columns (fill_missing flat))) =
        map (\<lambda>(l, c). (l, loc_rows s e (index flat) c))
            (filter (\<lambda>(l, c). dropna c \<noteq> [])
                    (map (\<lambda>(l, c). (l, bfill (ffill c))) (columns flat)))"
    by (simp add: loc_slice_def dropna_columns_def fill_missing_def)
  also have "\<dots> = map (\<lambda>(l, c). (l, loc_rows s e (index flat) c))
            (map (\<lambda>(l, c). (l, spec_fill c))
                 (filter (\<lambda>(l, c). dropna c \<noteq> []) (columns flat)))"
    using f [of "columns flat"] by (rule arg_cong)
  also have "\<dots> = map (\<lambda>(l, c). (l, loc_rows s e (index flat) (spec_fill c)))
                       (filter (\<lambda>(l, c). dropna c \<noteq> []) (columns flat))"
    by (simp add: case_prod_unfold)
  finally show ?thesis .
qed

lemma filled_index:
  "index (loc_slice s e (dropna_columns (fill_missing flat))) = filter (in_range s e) (index flat)"
  by (simp add: loc_slice_def dropna_columns_def fill_missing_def)

lemma filled_no_missing:
  "list_all (\<lambda>(l, c). NaN \<notin> set c)
     (columns (loc_slice s e (dropna_columns (fill_missing (flat :: string dataframe)))))"
proof -
  have "NaN \<notin> set (loc_rows s e (index flat) (spec_fill c))" if "dropna c \<noteq> []" for c
    using spec_fill_no_missing [OF that] set_loc_rows [of s e "index flat" "spec_fill c"]
    by blast
  then show ?thesis
    by (auto simp: filled_columns list_all_iff)
qed


lemma selected_prices_index:
  assumes "selected_prices raw tickers = Inr flat"
    and "\<not> download_empty (download_dropna raw)"
  shows "index flat \<noteq> []"
proof (cases raw)
  case (FlatFrame df)
  with assms show ?thesis
    by (auto simp: selected_prices_def select_close_def flatten_columns_def
        download_dropna_def download_empty_def dropna_columns_def df_empty_def Let_def
        split: if_splits sum.splits)
next
  case (MultiFrame df)
  with assms show ?thesis
    by (auto simp: selected_prices_def select_close_def flatten_columns_def
        download_dropna_def download_empty_def dropna_columns_def df_empty_def Let_def
        split: if_splits sum.splits)
qed

lemma filled_empty:
  "index flat \<noteq> [] \<Longrightarrow>
   df_empty (dropna_columns (fill_missing (flat :: string dataframe)))
   \<longleftrightarrow> list_all (\<lambda>(l, c). dropna c = []) (columns flat)"
proof -
  have f: "filter (\<lambda>(l, c). dropna c \<noteq> []) (map (\<lambda>(l, c). (l, bfill (ffill c))) cs) = []
           \<longleftrightarrow> list_all (\<lambda>(l, c). dropna c = []) cs"
    for cs :: "(string \<times> series) list"
    by (induction cs) (auto simp: bfill_ffill spec_fill_kept)
  assume "index flat \<noteq> []"
  then show ?thesis
    by (simp add: df_empty_def dropna_columns_def fill_missing_def f)
qed

text \<open>
  C8. Whatever the download, \<open>fetch_stock_data\<close> returns the empty table when the
  download has no data, and raises when the selection of the price columns raises.
  Otherwise it returns the empty table when no selected column has a known price, and
  else the table that has, at the dates between the two bounds, both included, the
  selected columns that have a known price at all, each filled over the whole column
  before the range is cut: a gap takes the last known price, a value missing at the
  start takes the first known price.  No column of a returned table has a missing
  value, and every date of it lies between the two bounds.
\<close>

theorem fetch_stock_data_fills_then_slices:
  "fetch_stock_data raw tickers start_date end_date =
     (if download_empty (download_dropna raw) then Inr empty_frame
      else case selected_prices raw tickers of
             Inl err \<Rightarrow> Inl err
           | Inr flat \<Rightarrow>
               if list_all (\<lambda>(l, c). dropna c = []) (columns flat) then Inr empty_frame
               else Inr \<lparr>index = filter (in_range start_date end_date) (index flat),
                         columns =
                           map (\<lambda>(l, c).
                                  (l, loc_rows start_date end_date (index flat) (spec_fill c)))
                               (filter (\<lambda>(l, c). dropna c \<noteq> []) (columns flat))\<rparr>)
   \<and> (\<forall>df. fetch_stock_data raw tickers start_date end_date = Inr df
          \<longrightarrow> list_all (\<lambda>(l, c). NaN \<notin> set c) (columns df)
              \<and> list_all (in_range start_date end_date) (index df))"
proof (cases "download_empty (download_dropna raw)")
  case True
  then show ?thesis by (simp add: fetch_stock_data_def empty_frame_def)
next
  case nonempty: False
  show ?thesis
  proof (cases "selected_prices raw tickers")
    case (Inl err)
    with nonempty show ?thesis
      by (auto simp: fetch_stock_data_def selected_prices_def Let_def split: sum.splits)
  next
    case (Inr flat)
    let ?filled = "dropna_columns (fill_missing flat)"
    have r: "fetch_stock_data raw tickers start_date end_date =
             (if df_empty ?filled then Inr empty_frame
              else Inr (loc_slice start_date end_date ?filled))"
      using nonempty Inr
      by (auto simp: fetch_stock_data_def selected_prices_def Let_def split: sum.splits)
    from Inr nonempty have idx: "index flat \<noteq> []" by (rule selected_prices_index)
    have em: "df_empty ?filled \<longleftrightarrow> list_all (\<lambda>(l, c). dropna c = []) (columns flat)"
      using idx by (rule filled_empty)
    show ?thesis
    proof (cases "df_empty ?filled")
      case True
      with r em nonempty Inr show ?thesis by (simp add: empty_frame_def)
    next
      case False
      let ?df = "loc_slice start_date end_date ?filled"
      from r False have eq: "fetch_stock_data raw tickers start_date end_date = Inr ?df"
        by simp
      have a: "list_all (\<lambda>(l, c). NaN \<notin> set c) (columns ?df)"
        by (rule filled_no_missing)
      have b: "list_all (in_range start_date end_date) (index ?df)"
        by (simp add: filled_index list_all_iff)
      have c: "?df = \<lparr>index = filter (in_range start_date end_date) (index flat),
                      columns =
                        map (\<lambda>(l, c).
                               (l, loc_rows start_date end_date (index flat) (spec_fill c)))
                            (filter (\<lambda>(l, c). dropna c \<noteq> []) (columns flat))\<rparr>"
        using filled_index [of start_date end_date flat]
          filled_columns [of start_date end_date flat]
        by (cases ?df) simp
      from False em have ne: "\<not> list_all (\<lambda>(l, c). dropna c = []) (columns flat)" by simp
      have first: "fetch_stock_data raw tickers start_date end_date =
         (if download_empty (download_dropna raw) then Inr empty_frame
          else case selected_prices raw tickers of
             Inl err \<Rightarrow> Inl err
           | Inr flat \<Rightarrow>
               if list_all (\<lambda>(l, c). dropna c = []) (columns flat) then Inr empty_frame
               else Inr \<lparr>index = filter (in_range start_date end_date) (index flat),
                         columns =
                           map (\<lambda>(l, c).
                                  (l, loc_rows start_date end_date (index flat) (spec_fill c)))
                               (filter (\<lambda>(l, c). dropna c \<noteq> []) (columns flat))\<rparr>)"
        using nonempty Inr ne eq c by simp
      have second: "\<forall>df. fetch_stock_data raw tickers start_date end_date = Inr df
          \<longrightarrow> list_all (\<lambda>(l, c). NaN \<notin> set c) (columns df)
              \<and> list_all (in_range start_date end_date) (index df)"
        unfolding eq using a b by blast
      from first second show ?thesis by (rule conjI)
    qed
  qed
qed

theorem fetch_stock_data_fills_then_slices_witness:
  "fetch_stock_data
     (MultiFrame \<lparr>index = [1, 2, 3],
        columns = [((''Close'', ''A''), [Fin 10, Fin 11, Fin 12]),
                   ((''Close'', ''B''), [NaN, NaN, Fin 20]),
                   ((''Close'', ''C''), [NaN, NaN, NaN])]\<rparr>)
     [''A'', ''B'', ''C''] 1 2
   = Inr \<lparr>index = [1, 2], columns = [(''A'', [Fin 10, Fin 11]), (''B'', [Fin 20, Fin 20])]\<rparr>
   \<and> list_all (\<lambda>(l, c). NaN \<notin> set c) [(''A'', [Fin 10, Fin 11]), (''B'', [Fin 20, Fin 20])]
   \<and> list_all (in_range 1 2) [1, 2]
   \<and> spec_fill [NaN, NaN, Fin 20] = [Fin 20, Fin 20, Fin 20]"
proof -
  let ?raw = "MultiFrame \<lparr>index = [1, 2, 3],
        columns = [((''Close'', ''A''), [Fin 10, Fin 11, Fin 12]),
                   ((''Close'', ''B''), [NaN, NaN, Fin 20]),
                   ((''Close'', ''C''), [NaN, NaN, NaN])]\<rparr>"
  have v: "fetch_stock_data ?raw [''A'', ''B'', ''C''] 1 2
           = Inr \<lparr>index = [1, 2], columns = [(''A'', [Fin 10, Fin 11]), (''B'', [Fin 20, Fin 20])]\<rparr>"
    by (simp add: fetch_stock_data_def download_dropna_def download_empty_def
        dropna_columns_def df_empty_def select_close_def flatten_columns_def fill_missing_def
        bfill_def ffill_def loc_slice_def loc_rows_def in_range_def upper_def upper_char_def)
  from fetch_stock_data_fills_then_slices [of ?raw "[''A'', ''B'', ''C'']" 1 2]
  have "list_all (\<lambda>(l, c). NaN \<notin> set c) [(''A'', [Fin 10, Fin 11]), (''B'', [Fin 20, Fin 20])]
        \<and> list_all (in_range 1 2) [1, 2]"
    unfolding v by simp
  moreover have "spec_fill [NaN, NaN, Fin 20] = [Fin 20, Fin 20, Fin 20]"
    by (simp add: spec_fill_def last_known_def first_known_def upt_rec)
  ultimately show ?thesis using v by simp
qed

section \<open>Changes between consecutive points\<close>

text \<open>
  On a series without missing values \<open>pct_change\<close> is the simple change between
  consecutive points, with no value at the first point.
\<close>

lemma ffill_from_Fin [simp]: "ffill_from p (map Fin vs) = map Fin vs"
  by (induction vs arbitrary: p) simp_all

lemma pct_change_Fin_first: "vs \<noteq> [] \<Longrightarrow> pct_change (map Fin vs) ! 0 = NaN"
  by (cases vs) (simp_all add: pct_change_def ffill_def)

lemma pct_change_Fin_step:
  "Suc i < length vs \<Longrightarrow>
   pct_change (map Fin vs) ! Suc i = fsub (fdiv (Fin (vs ! Suc i)) (Fin (vs ! i))) (Fin 1)"
  by (simp only: pct_change_def ffill_def ffill_from_Fin Let_def) simp

lemma length_pct_change [simp]: "length (pct_change xs) = length xs"
  by (simp add: pct_change_def Let_def ffill_def)

text \<open>
  Strictly increasing positive values are an instance of "no negative daily return".
\<close>

lemma increasing_no_negative_return:
  assumes "sorted_wrt (<) vs" and "\<forall>v \<in> set vs. 0 < v"
  shows "\<forall>r \<in> set (dropna (pct_change (map Fin vs))). \<not> flt r (Fin 0)"
proof
  fix r
  assume "r \<in> set (dropna (pct_change (map Fin vs)))"
  then have r: "r \<in> set (pct_change (map Fin vs))" and nn: "r \<noteq> NaN"
    by (simp_all add: dropna_def)
  from r obtain k where k: "k < length vs" and rk: "r = pct_change (map Fin vs) ! k"
    by (auto simp: in_set_conv_nth)
  show "\<not> flt r (Fin 0)"
  proof (cases k)
    case 0
    with k rk nn show ?thesis using pct_change_Fin_first [of vs] by auto
  next
    case (Suc i)
    with k have i: "Suc i < length vs" by simp
    then have lt: "vs ! i < vs ! Suc i"
      using assms(1) by (simp add: sorted_wrt_nth_less)
    have pos: "0 < vs ! i" using assms(2) i by simp
    then have "1 < vs ! Suc i / vs ! i" using lt by simp
    moreover have "r = Fin (vs ! Suc i / vs ! i - 1)"
      using rk Suc pct_change_Fin_step [OF i] pos by simp
    ultimately show ?thesis by simp
  qed
qed

end
